theory Spec2Isabelle
  imports Complex_Main
begin

section \<open>Values, exceptions and responses\<close>

text \<open>
  The service in \<^verbatim>\<open>main.py\<close> is one Flask handler, \<^verbatim>\<open>video_to_drive\<close>, with two
  helpers, \<^verbatim>\<open>get_gdrive_service\<close> and \<^verbatim>\<open>get_or_create_folder\<close>. The handler's own
  logic is the order of the calls it makes to three collaborators (the extraction tool,
  the OAuth library and the Drive client), a little string handling, and the way
  exceptions are turned into HTTP responses. The embedding keeps all three. The
  \<^verbatim>\<open>print\<close> calls are left out, and so is the set-up at module level (the download
  directory, the environment file).

  Python values that travel through JSON (the request body, the response bodies, the
  upload response) are values of \<open>json\<close>. A dict is the list of its items.
\<close>

datatype json =
    JNull
  | JBool bool
  | JInt int
  | JFloat real
  | JString string
  | JList "json list"
  | JObject "(string \<times> json) list"

text \<open>Python truthiness, as \<^verbatim>\<open>not url\<close> uses it.\<close>

fun truthy :: "json \<Rightarrow> bool" where
  "truthy JNull = False"
| "truthy (JBool b) = b"
| "truthy (JInt i) = (i \<noteq> 0)"
| "truthy (JFloat r) = (r \<noteq> 0)"
| "truthy (JString s) = (s \<noteq> [])"
| "truthy (JList xs) = (xs \<noteq> [])"
| "truthy (JObject kvs) = (kvs \<noteq> [])"

text \<open>
  Exceptions carry their class and their message (\<^verbatim>\<open>str(e)\<close>). The source tells
  \<^verbatim>\<open>PermissionError\<close> apart from every other exception, raises a plain
  \<^verbatim>\<open>Exception\<close> itself, and provokes \<^verbatim>\<open>AttributeError\<close> and \<^verbatim>\<open>KeyError\<close>;
  any other class a collaborator raises is \<open>OtherException\<close> with its name. All of them
  are subclasses of \<^verbatim>\<open>Exception\<close>, which is what line 153 catches.
\<close>

datatype exn_class =
    AttributeError
  | KeyError
  | PermissionError
  | FileNotFoundError
  | PlainException
  | OtherException string

datatype exn = Exn exn_class string

fun exn_str :: "exn \<Rightarrow> string" where
  "exn_str (Exn c msg) = msg"

fun is_permission_error :: "exn \<Rightarrow> bool" where
  "is_permission_error (Exn c msg) = (c = PermissionError)"

text \<open>
  What a request ends in: a response built by the handler (\<^verbatim>\<open>jsonify(...), status\<close>),
  an exception that leaves the handler uncaught, or no response at all (the upload loop
  never ends).
\<close>

datatype http =
    Response nat "(string \<times> json) list"
  | Unhandled exn
  | NoResponse

fun status_of :: "http \<Rightarrow> nat option" where
  "status_of (Response st body) = Some st"
| "status_of (Unhandled e) = None"
| "status_of NoResponse = None"

text \<open>
  The source's messages start with symbols outside ASCII; they are written here as
  their UTF-8 bytes.
\<close>

definition cross_mark :: string where
  "cross_mark = [CHR 0xE2, CHR 0x9D, CHR 0x8C]"

definition check_mark :: string where
  "check_mark = [CHR 0xE2, CHR 0x9C, CHR 0x85]"

section \<open>String operations of the handler\<close>

text \<open>\<^verbatim>\<open>s.endswith(t)\<close>.\<close>

definition endswith :: "string \<Rightarrow> string \<Rightarrow> bool" where
  "endswith s t = (length t \<le> length s \<and> drop (length s - length t) s = t)"

text \<open>
  \<^verbatim>\<open>s.rsplit(".", 1)[0]\<close>: the part before the last dot, or all of \<open>s\<close> when it has
  no dot.
\<close>

definition rsplit_dot_head :: "string \<Rightarrow> string" where
  "rsplit_dot_head s =
     (if CHR ''.'' \<in> set s
      then rev (tl (dropWhile (\<lambda>c. c \<noteq> CHR ''.'') (rev s)))
      else s)"

text \<open>Lines 90 and 91.\<close>

definition normalize_ext :: "string \<Rightarrow> string" where
  "normalize_ext filename =
     (if \<not> endswith filename ''.mp4''
      then rsplit_dot_head filename @ ''.mp4''
      else filename)"

text \<open>\<^verbatim>\<open>os.path.basename\<close> of \<^verbatim>\<open>posixpath\<close>: what follows the last slash.\<close>

definition basename :: "string \<Rightarrow> string" where
  "basename p = rev (takeWhile (\<lambda>c. c \<noteq> CHR ''/'') (rev p))"

text \<open>\<^verbatim>\<open>d.get(k)\<close> on a dict: \<^verbatim>\<open>None\<close> when the key is missing.\<close>

definition dict_get :: "(string \<times> json) list \<Rightarrow> string \<Rightarrow> json" where
  "dict_get kvs k = (case map_of kvs k of None \<Rightarrow> JNull | Some v \<Rightarrow> v)"

text \<open>The name Python prints for the type of a value that is not a dict.\<close>

fun type_name :: "json \<Rightarrow> string" where
  "type_name JNull = ''NoneType''"
| "type_name (JBool b) = ''bool''"
| "type_name (JInt i) = ''int''"
| "type_name (JFloat r) = ''float''"
| "type_name (JString s) = ''str''"
| "type_name (JList xs) = ''list''"
| "type_name (JObject kvs) = ''dict''"

text \<open>
  \<^verbatim>\<open>data.get("url")\<close> on the parsed body (line 72). Only a dict has a \<^verbatim>\<open>get\<close>
  method; on anything else the attribute access raises \<^verbatim>\<open>AttributeError\<close>.
\<close>

fun data_get :: "json \<Rightarrow> string \<Rightarrow> exn + json" where
  "data_get (JObject kvs) k = Inr (dict_get kvs k)"
| "data_get v k =
     Inl (Exn AttributeError
            ([CHR 0x27] @ type_name v @ [CHR 0x27] @ '' object has no attribute ''
              @ [CHR 0x27] @ ''get'' @ [CHR 0x27]))"

section \<open>The world the handler runs in\<close>

text \<open>
  A credential as the source reads it: \<^verbatim>\<open>creds.expired\<close>, \<^verbatim>\<open>creds.refresh_token\<close>
  and \<^verbatim>\<open>creds.valid\<close>. In the OAuth library \<^verbatim>\<open>valid\<close> is a property computed from
  the other two: the access token is present and the credential is not expired.
\<close>

record cred =
  access_token :: "string option"
  expired :: bool
  refresh_token :: "string option"

definition cred_valid :: "cred \<Rightarrow> bool" where
  "cred_valid c = (access_token c \<noteq> None \<and> \<not> expired c)"

text \<open>Truthiness of \<^verbatim>\<open>creds.refresh_token\<close> and of \<^verbatim>\<open>creds_json\<close>: a non-empty string.\<close>

fun truthy_str :: "string option \<Rightarrow> bool" where
  "truthy_str None = False"
| "truthy_str (Some s) = (s \<noteq> [])"

text \<open>
  The storage provider holds objects. The handler reads an object's identifier, name,
  type and trashed flag (through its folder query) and sets its parents and its public
  permission.
\<close>

record remote_obj =
  obj_id :: string
  obj_name :: string
  obj_mime :: string
  obj_parents :: "string list"
  obj_trashed :: bool
  obj_public :: bool

text \<open>
  Every call that leaves the handler is an event, with the arguments that matter. A
  run returns the list of its events in order: what was attempted, and what was not,
  is read off this list.
\<close>

datatype event =
    ExtractInfo json
  | PrepareFilename json
  | PathExists string
  | PickleLoad
  | Refresh
  | GetEnv string
  | JsonLoads string
  | FromClientConfig
  | RunLocalServer
  | PickleDump
  | Build
  | FilesList string
  | FolderCreate string
  | MediaFileUpload string
  | FilesCreate string "string list"
  | NextChunk
  | CloseFd
  | PermissionsCreate json
  | Remove string
  | Sleep nat

text \<open>
  The token cache, when the file exists, holds a pickled credential, or nothing that
  can be loaded: opening a file for writing empties it before anything is written.
\<close>

datatype pickle_file = Holds cred | Truncated

text \<open>
  \<open>disk\<close> is the set of paths of the local files other than the token cache;
  \<open>token_pickle\<close> is the content of \<^verbatim>\<open>token.pickle\<close> when that file exists;
  \<open>environ\<close> is the value of \<^verbatim>\<open>GOOGLE_CREDENTIALS\<close> when it is set; \<open>drive\<close> is
  the provider's objects in the provider's order.
\<close>

record world =
  disk :: "string set"
  token_pickle :: "pickle_file option"
  environ :: "string option"
  drive :: "remote_obj list"

text \<open>
  How the collaborators answer during one request. Each field is the outcome of one
  call site: an exception, or the value the call returns. The handler is a function of
  the script, so a statement for all scripts is a statement for all behaviours of the
  collaborators.
  \<^item> \<open>ydl_writes\<close>: the files the extraction tool leaves on disk during
    \<^verbatim>\<open>extract_info\<close>, whether or not it raises afterwards;
  \<^item> \<open>chunks\<close>: the answers of successive \<^verbatim>\<open>next_chunk()\<close> calls;
  \<^item> \<open>remove1_r\<close>, \<open>remove2_r\<close>: the first and the second \<^verbatim>\<open>os.remove\<close>.
\<close>

datatype chunk =
    ChunkProgress
  | ChunkComplete
  | ChunkRaises exn

text \<open>
  Lines 50 and 51 fail in \<^verbatim>\<open>open(..., "wb")\<close>, before the file is touched, or in
  \<^verbatim>\<open>pickle.dump\<close>, after \<^verbatim>\<open>open\<close> has emptied it.
\<close>

datatype write_failure = OpenFails exn | DumpFails exn

record script =
  ydl_writes :: "string set"
  extract_info_r :: "exn + json"
  prepare_filename_r :: "exn + string"
  pickle_load_r :: "exn option"
  refresh_r :: "exn + cred"
  json_loads_r :: "exn option"
  from_client_config_r :: "exn option"
  run_local_server_r :: "exn + cred"
  pickle_dump_r :: "write_failure option"
  build_r :: "exn option"
  files_list_r :: "exn option"
  folder_create_r :: "exn option"
  media_r :: "exn option"
  chunks :: "chunk list"
  fd_close_r :: "exn option"
  permissions_r :: "exn option"
  remove1_r :: "exn option"
  remove2_r :: "exn option"

section \<open>Programs: state, exceptions and the record of calls\<close>

text \<open>
  A statement of the source is a function from the world to a result, the world it
  leaves and the calls it made. A raise keeps the changes and the calls made before
  it.
\<close>

datatype 'a result = Ok 'a | Raised exn | Diverged

type_synonym 'a prog = "world \<Rightarrow> 'a result \<times> world \<times> event list"

definition ret :: "'a \<Rightarrow> 'a prog" where
  "ret x w = (Ok x, w, [])"

definition raise :: "exn \<Rightarrow> 'a prog" where
  "raise e w = (Raised e, w, [])"

text \<open>Puts calls made earlier in front of the calls of a run.\<close>

fun after :: "event list \<Rightarrow> 'a result \<times> world \<times> event list \<Rightarrow> 'a result \<times> world \<times> event list" where
  "after t1 (r, w, t2) = (r, w, t1 @ t2)"

definition bnd :: "'a prog \<Rightarrow> ('a \<Rightarrow> 'b prog) \<Rightarrow> 'b prog" where
  "bnd m f w =
     (case m w of
        (Ok x, w1, t1) \<Rightarrow> after t1 (f x w1)
      | (Raised e, w1, t1) \<Rightarrow> (Raised e, w1, t1)
      | (Diverged, w1, t1) \<Rightarrow> (Diverged, w1, t1))"

definition emit :: "event \<Rightarrow> unit prog" where
  "emit c w = (Ok (), w, [c])"

definition fail_if :: "exn option \<Rightarrow> unit prog" where
  "fail_if r = (case r of None \<Rightarrow> ret () | Some e \<Rightarrow> raise e)"

definition lift :: "exn + 'a \<Rightarrow> 'a prog" where
  "lift r = (case r of Inl e \<Rightarrow> raise e | Inr x \<Rightarrow> ret x)"

text \<open>Reads the world, or changes it, without a call.\<close>

definition get_world :: "(world \<Rightarrow> 'a) \<Rightarrow> 'a prog" where
  "get_world g w = (Ok (g w), w, [])"

definition set_world :: "(world \<Rightarrow> world) \<Rightarrow> unit prog" where
  "set_world h w = (Ok (), h w, [])"

text \<open>\<^verbatim>\<open>try: m  except PermissionError: h\<close>.\<close>

definition except_permission_error :: "'a prog \<Rightarrow> 'a prog \<Rightarrow> 'a prog" where
  "except_permission_error m h w =
     (case m w of
        (Raised e, w1, t1) \<Rightarrow>
          if is_permission_error e then after t1 (h w1) else (Raised e, w1, t1)
      | (Ok x, w1, t1) \<Rightarrow> (Ok x, w1, t1)
      | (Diverged, w1, t1) \<Rightarrow> (Diverged, w1, t1))"

text \<open>\<^verbatim>\<open>try: m  except Exception as e: print(...)\<close> (lines 122 to 128).\<close>

definition except_pass :: "unit prog \<Rightarrow> unit prog" where
  "except_pass m w =
     (case m w of
        (Raised e, w1, t1) \<Rightarrow> (Ok (), w1, t1)
      | (Ok x, w1, t1) \<Rightarrow> (Ok x, w1, t1)
      | (Diverged, w1, t1) \<Rightarrow> (Diverged, w1, t1))"

text \<open>
  \<^verbatim>\<open>try: m  except Exception as e: return jsonify({"error": str(e)}), 500\<close>
  (lines 85 and 153).
\<close>

definition error_response :: "exn \<Rightarrow> http" where
  "error_response e = Response 500 [(''error'', JString (exn_str e))]"

definition except_500 :: "http prog \<Rightarrow> world \<Rightarrow> http \<times> world \<times> event list" where
  "except_500 m w =
     (case m w of
        (Ok r, w1, t1) \<Rightarrow> (r, w1, t1)
      | (Raised e, w1, t1) \<Rightarrow> (error_response e, w1, t1)
      | (Diverged, w1, t1) \<Rightarrow> (NoResponse, w1, t1))"

section \<open>Local files\<close>

definition path_exists :: "string \<Rightarrow> bool prog" where
  "path_exists p = bnd (emit (PathExists p)) (\<lambda>_. get_world (\<lambda>w. p \<in> disk w))"

text \<open>
  \<^verbatim>\<open>os.remove(p)\<close>: the scripted failure (a lock, for one), else the file is gone;
  removing a file that is not there raises \<^verbatim>\<open>FileNotFoundError\<close>.
\<close>

definition os_remove :: "exn option \<Rightarrow> string \<Rightarrow> unit prog" where
  "os_remove r p =
     bnd (emit (Remove p)) (\<lambda>_.
     bnd (fail_if r) (\<lambda>_.
     bnd (get_world (\<lambda>w. p \<in> disk w)) (\<lambda>there.
       if there then set_world (\<lambda>w. w\<lparr>disk := disk w - {p}\<rparr>)
       else raise (Exn FileNotFoundError p))))"

definition time_sleep :: "nat \<Rightarrow> unit prog" where
  "time_sleep n = emit (Sleep n)"

section \<open>The storage provider\<close>

text \<open>
  The provider is not part of the repository. Its model follows what the source asks
  of it and what the specification says it does: a listing reads the text of the
  query and returns the objects that satisfy it, in the provider's order; a create
  adds an object under an identifier no object has yet; a permission grant marks the
  object public.
\<close>

definition folder_mime :: string where
  "folder_mime = ''application/vnd.google-apps.folder''"

text \<open>The query of line 57, as the f-string builds it.\<close>

definition folder_query :: "string \<Rightarrow> string" where
  "folder_query folder_name =
     ''name='' @ [CHR 0x27] @ folder_name @ [CHR 0x27]
       @ '' and mimeType='' @ [CHR 0x27] @ folder_mime @ [CHR 0x27]
       @ '' and trashed=false''"

text \<open>
  The provider reads the query text itself. The part of its query language modelled
  here is the part the handler writes in: a conjunction, with \<^verbatim>\<open> and \<close> between the
  terms, of comparisons of \<^verbatim>\<open>name\<close> and \<^verbatim>\<open>mimeType\<close> with a string literal and of
  \<^verbatim>\<open>trashed\<close> with a boolean. A string literal stands between single quotes; inside
  it a backslash makes the next character part of the string, so a quote in a name
  has to be written with a backslash before it. Any other text is refused.
\<close>

datatype qterm = NameIs string | MimeTypeIs string | TrashedIs bool

text \<open>\<open>strip_prefix p s\<close>: what follows \<open>p\<close> in \<open>s\<close>, when \<open>s\<close> starts with \<open>p\<close>.\<close>

fun strip_prefix :: "string \<Rightarrow> string \<Rightarrow> string option" where
  "strip_prefix [] s = Some s"
| "strip_prefix (p # ps) [] = None"
| "strip_prefix (p # ps) (c # cs) = (if p = c then strip_prefix ps cs else None)"

text \<open>
  Reads a string literal after its opening quote: the string, and what follows the
  closing quote.
\<close>

fun read_literal :: "string \<Rightarrow> string \<Rightarrow> (string \<times> string) option" where
  "read_literal acc [] = None"
| "read_literal acc (c # cs) =
     (if c = CHR 0x27 then Some (rev acc, cs)
      else if c = CHR 0x5C
      then (case cs of [] \<Rightarrow> None | d # ds \<Rightarrow> read_literal (d # acc) ds)
      else read_literal (c # acc) cs)"

definition parse_term :: "string \<Rightarrow> (qterm \<times> string) option" where
  "parse_term s =
     (case strip_prefix (''name='' @ [CHR 0x27]) s of
        Some r \<Rightarrow> map_option (\<lambda>(l, rest). (NameIs l, rest)) (read_literal [] r)
      | None \<Rightarrow>
     (case strip_prefix (''mimeType='' @ [CHR 0x27]) s of
        Some r \<Rightarrow> map_option (\<lambda>(l, rest). (MimeTypeIs l, rest)) (read_literal [] r)
      | None \<Rightarrow>
     (case strip_prefix ''trashed=false'' s of
        Some r \<Rightarrow> Some (TrashedIs False, r)
      | None \<Rightarrow>
     (case strip_prefix ''trashed=true'' s of
        Some r \<Rightarrow> Some (TrashedIs True, r)
      | None \<Rightarrow> None))))"

text \<open>
  The terms of a query. The first argument bounds the number of terms; the length
  of the text is enough, since every term takes at least one character.
\<close>

fun parse_terms :: "nat \<Rightarrow> string \<Rightarrow> qterm list option" where
  "parse_terms 0 s = None"
| "parse_terms (Suc k) s =
     (case parse_term s of
        None \<Rightarrow> None
      | Some (t, rest) \<Rightarrow>
          if rest = [] then Some [t]
          else (case strip_prefix '' and '' rest of
                  None \<Rightarrow> None
                | Some r \<Rightarrow> map_option ((#) t) (parse_terms k r)))"

definition parse_query :: "string \<Rightarrow> qterm list option" where
  "parse_query q = parse_terms (length q) q"

fun term_holds :: "remote_obj \<Rightarrow> qterm \<Rightarrow> bool" where
  "term_holds obj (NameIs n) = (obj_name obj = n)"
| "term_holds obj (MimeTypeIs m) = (obj_mime obj = m)"
| "term_holds obj (TrashedIs b) = (obj_trashed obj = b)"

definition invalid_query :: exn where
  "invalid_query = Exn (OtherException ''HttpError'') ''Invalid Value''"

text \<open>
  \<^verbatim>\<open>files().list(q=...).execute()\<close>: the objects that satisfy every term of the
  query, in the provider's order; a query the provider cannot read is an error.
\<close>

definition drive_files_list :: "string \<Rightarrow> remote_obj list \<Rightarrow> exn + remote_obj list" where
  "drive_files_list q d =
     (case parse_query q of
        None \<Rightarrow> Inl invalid_query
      | Some ts \<Rightarrow> Inr (filter (\<lambda>obj. list_all (term_holds obj) ts) d))"

text \<open>An identifier longer than every identifier in use.\<close>

definition fresh_id :: "remote_obj list \<Rightarrow> string" where
  "fresh_id d = replicate (Suc (foldr max (map (\<lambda>obj. length (obj_id obj)) d) 0)) (CHR ''i'')"

definition new_folder :: "string \<Rightarrow> string \<Rightarrow> remote_obj" where
  "new_folder i folder_name =
     \<lparr>obj_id = i, obj_name = folder_name, obj_mime = folder_mime, obj_parents = [],
      obj_trashed = False, obj_public = False\<rparr>"

definition new_file :: "string \<Rightarrow> string \<Rightarrow> string list \<Rightarrow> remote_obj" where
  "new_file i file_name parents =
     \<lparr>obj_id = i, obj_name = file_name, obj_mime = ''video/mp4'', obj_parents = parents,
      obj_trashed = False, obj_public = False\<rparr>"

definition web_view_link :: "string \<Rightarrow> string" where
  "web_view_link i = ''https://drive.google.com/file/d/'' @ i @ ''/view''"

definition grant_public :: "json \<Rightarrow> remote_obj list \<Rightarrow> remote_obj list" where
  "grant_public file_id d =
     map (\<lambda>obj. if JString (obj_id obj) = file_id then obj\<lparr>obj_public := True\<rparr> else obj) d"

section \<open>\<^verbatim>\<open>get_gdrive_service\<close>\<close>

datatype service = Service cred

text \<open>Line 30, \<^verbatim>\<open>os.path.exists("token.pickle")\<close>, and lines 31 and 32.\<close>

definition token_exists :: "bool prog" where
  "token_exists =
     bnd (emit (PathExists ''token.pickle'')) (\<lambda>_. get_world (\<lambda>w. token_pickle w \<noteq> None))"

text \<open>
  Lines 31 and 32. Loading a file that holds nothing raises \<^verbatim>\<open>EOFError\<close>; the
  function is only called when the file exists.
\<close>

definition pickle_load :: "script \<Rightarrow> cred option prog" where
  "pickle_load s =
     bnd (emit PickleLoad) (\<lambda>_.
     bnd (fail_if (pickle_load_r s)) (\<lambda>_.
     bnd (get_world token_pickle) (\<lambda>file.
       case file of
         Some (Holds c) \<Rightarrow> ret (Some c)
       | Some Truncated \<Rightarrow> raise (Exn (OtherException ''EOFError'') ''Ran out of input'')
       | None \<Rightarrow> raise (Exn FileNotFoundError ''token.pickle''))))"

text \<open>
  Lines 50 and 51. A failure of \<^verbatim>\<open>open\<close> leaves the cache as it was; a failure of
  \<^verbatim>\<open>pickle.dump\<close> leaves the file that \<^verbatim>\<open>open\<close> has just emptied.
\<close>

definition pickle_dump :: "script \<Rightarrow> cred \<Rightarrow> unit prog" where
  "pickle_dump s c =
     bnd (emit PickleDump) (\<lambda>_.
       case pickle_dump_r s of
         Some (OpenFails e) \<Rightarrow> raise e
       | Some (DumpFails e) \<Rightarrow>
           bnd (set_world (\<lambda>w. w\<lparr>token_pickle := Some Truncated\<rparr>)) (\<lambda>_. raise e)
       | None \<Rightarrow> set_world (\<lambda>w. w\<lparr>token_pickle := Some (Holds c)\<rparr>))"

text \<open>Line 35, \<^verbatim>\<open>creds and creds.expired and creds.refresh_token\<close>.\<close>

definition refreshable :: "cred option \<Rightarrow> bool" where
  "refreshable creds =
     (case creds of None \<Rightarrow> False | Some c \<Rightarrow> expired c \<and> truthy_str (refresh_token c))"

text \<open>Lines 39 to 47: the bootstrap secret and the interactive flow.\<close>

definition missing_secret :: exn where
  "missing_secret =
     Exn PlainException (cross_mark @ '' GOOGLE_CREDENTIALS not found in environment variables'')"

definition acquire :: "script \<Rightarrow> cred prog" where
  "acquire s =
     bnd (emit (GetEnv ''GOOGLE_CREDENTIALS'')) (\<lambda>_.
     bnd (get_world environ) (\<lambda>creds_json.
       case creds_json of
         None \<Rightarrow> raise missing_secret
       | Some js \<Rightarrow>
           if js = [] then raise missing_secret
           else
             bnd (emit (JsonLoads js)) (\<lambda>_.
             bnd (fail_if (json_loads_r s)) (\<lambda>_.
             bnd (emit FromClientConfig) (\<lambda>_.
             bnd (fail_if (from_client_config_r s)) (\<lambda>_.
             bnd (emit RunLocalServer) (\<lambda>_.
             lift (run_local_server_r s))))))))"

text \<open>Lines 35 to 51: refresh or acquire, then save the token.\<close>

definition login :: "script \<Rightarrow> cred option \<Rightarrow> cred prog" where
  "login s creds =
     bnd (if refreshable creds
          then bnd (emit Refresh) (\<lambda>_. lift (refresh_r s))
          else acquire s) (\<lambda>creds'.
     bnd (pickle_dump s creds') (\<lambda>_.
     ret creds'))"

text \<open>
  Line 34, \<^verbatim>\<open>if not creds or not creds.valid\<close>, is the case distinction below: no
  cached credential, or one that is not valid, goes through \<open>login\<close>.
\<close>

definition get_gdrive_service :: "script \<Rightarrow> service prog" where
  "get_gdrive_service s =
     bnd token_exists (\<lambda>ex.
     bnd (if ex then pickle_load s else ret None) (\<lambda>creds.
     bnd (case creds of
            None \<Rightarrow> login s creds
          | Some c \<Rightarrow> if \<not> cred_valid c then login s creds else ret c) (\<lambda>creds.
     bnd (emit Build) (\<lambda>_.
     bnd (fail_if (build_r s)) (\<lambda>_.
     ret (Service creds))))))"

section \<open>\<^verbatim>\<open>get_or_create_folder\<close>\<close>

definition get_or_create_folder :: "script \<Rightarrow> service \<Rightarrow> string \<Rightarrow> string prog" where
  "get_or_create_folder s svc folder_name =
     (let query = folder_query folder_name in
      bnd (emit (FilesList query)) (\<lambda>_.
      bnd (fail_if (files_list_r s)) (\<lambda>_.
      bnd (get_world drive) (\<lambda>d.
      bnd (lift (drive_files_list query d)) (\<lambda>files.
        case files of
          f # _ \<Rightarrow> ret (obj_id f)
        | [] \<Rightarrow>
            bnd (emit (FolderCreate folder_name)) (\<lambda>_.
            bnd (fail_if (folder_create_r s)) (\<lambda>_.
            bnd (get_world (\<lambda>w. fresh_id (drive w))) (\<lambda>i.
            bnd (set_world (\<lambda>w. w\<lparr>drive := drive w @ [new_folder i folder_name]\<rparr>)) (\<lambda>_.
            ret i)))))))))"

section \<open>\<^verbatim>\<open>video_to_drive\<close>\<close>

text \<open>
  Lines 87 to 91: the extraction tool runs, leaves its files, and names the file it
  prepared; the name is then forced to end in \<^verbatim>\<open>.mp4\<close>. An exception from the
  constructor or from leaving the \<^verbatim>\<open>with\<close> block is caught by the same handler as one
  from \<^verbatim>\<open>extract_info\<close> and is counted with it.
\<close>

definition download_video :: "script \<Rightarrow> json \<Rightarrow> string prog" where
  "download_video s url =
     bnd (emit (ExtractInfo url)) (\<lambda>_.
     bnd (set_world (\<lambda>w. w\<lparr>disk := disk w \<union> ydl_writes s\<rparr>)) (\<lambda>_.
     bnd (lift (extract_info_r s)) (\<lambda>info.
     bnd (emit (PrepareFilename info)) (\<lambda>_.
     bnd (lift (prepare_filename_r s)) (\<lambda>filename.
     ret (normalize_ext filename))))))"

text \<open>
  Lines 113 to 117, \<^verbatim>\<open>while response is None: status, response = next_chunk()\<close>.
  A chunk raises, reports progress (the response is still \<^verbatim>\<open>None\<close>), or completes
  the transfer: the provider then holds the new object and answers with its identifier
  and link. A script that ends before the transfer completes or fails describes a
  provider that never reports completion: the loop does not return.
\<close>

fun next_chunks :: "chunk list \<Rightarrow> string \<Rightarrow> string list \<Rightarrow> (string \<times> json) list prog" where
  "next_chunks [] file_name parents w = (Diverged, w, [])"
| "next_chunks (c # cs) file_name parents w =
     (case c of
        ChunkRaises e \<Rightarrow> (Raised e, w, [NextChunk])
      | ChunkProgress \<Rightarrow> after [NextChunk] (next_chunks cs file_name parents w)
      | ChunkComplete \<Rightarrow>
          (let i = fresh_id (drive w)
           in (Ok [(''id'', JString i), (''webViewLink'', JString (web_view_link i))],
               w\<lparr>drive := drive w @ [new_file i file_name parents]\<rparr>,
               [NextChunk])))"

text \<open>Lines 100 to 117.\<close>

definition upload_to_drive ::
  "script \<Rightarrow> service \<Rightarrow> string \<Rightarrow> string \<Rightarrow> (string \<times> json) list prog" where
  "upload_to_drive s svc filename folder_id =
     bnd (emit (MediaFileUpload filename)) (\<lambda>_.
     bnd (fail_if (media_r s)) (\<lambda>_.
     bnd (emit (FilesCreate (basename filename) [folder_id])) (\<lambda>_.
     next_chunks (chunks s) (basename filename) [folder_id])))"

text \<open>Lines 122 to 128.\<close>

definition close_file_handles :: "script \<Rightarrow> unit prog" where
  "close_file_handles s =
     except_pass (bnd (emit CloseFd) (\<lambda>_. fail_if (fd_close_r s)))"

text \<open>Lines 131 to 134; \<^verbatim>\<open>response["id"]\<close> raises \<^verbatim>\<open>KeyError\<close> on a missing key.\<close>

definition make_file_public :: "script \<Rightarrow> service \<Rightarrow> (string \<times> json) list \<Rightarrow> unit prog" where
  "make_file_public s svc response =
     (case map_of response ''id'' of
        None \<Rightarrow> raise (Exn KeyError ([CHR 0x27] @ ''id'' @ [CHR 0x27]))
      | Some file_id \<Rightarrow>
          bnd (emit (PermissionsCreate file_id)) (\<lambda>_.
          bnd (fail_if (permissions_r s)) (\<lambda>_.
          set_world (\<lambda>w. w\<lparr>drive := grant_public file_id (drive w)\<rparr>))))"

text \<open>Lines 137 to 144.\<close>

definition cleanup_local_file :: "script \<Rightarrow> string \<Rightarrow> unit prog" where
  "cleanup_local_file s filename =
     except_permission_error
       (bnd (path_exists filename) (\<lambda>ex.
          if ex then os_remove (remove1_r s) filename else ret ()))
       (bnd (time_sleep 2) (\<lambda>_.
        os_remove (remove2_r s) filename))"

text \<open>Lines 146 to 151.\<close>

definition success_response :: "(string \<times> json) list \<Rightarrow> string \<Rightarrow> http" where
  "success_response response filename =
     Response 200
       [(''message'', JString (check_mark @ '' Video downloaded & uploaded to Google Drive'')),
        (''file_id'', dict_get response ''id''),
        (''file_name'', JString (basename filename)),
        (''public_link'', dict_get response ''webViewLink'')]"

text \<open>Lines 85 to 151: the body of the \<^verbatim>\<open>try\<close>.\<close>

definition try_body :: "script \<Rightarrow> json \<Rightarrow> http prog" where
  "try_body s url =
     bnd (download_video s url) (\<lambda>filename.
     bnd (path_exists filename) (\<lambda>ex.
       if \<not> ex
       then ret (Response 500 [(''error'', JString ''File not found after download'')])
       else
         bnd (get_gdrive_service s) (\<lambda>svc.
         bnd (get_or_create_folder s svc ''YouTubeSong'') (\<lambda>folder_id.
         bnd (upload_to_drive s svc filename folder_id) (\<lambda>response.
         bnd (close_file_handles s) (\<lambda>_.
         bnd (make_file_public s svc response) (\<lambda>_.
         bnd (cleanup_local_file s filename) (\<lambda>_.
         ret (success_response response filename)))))))))"

text \<open>
  Lines 100 to 151 under a name of their own: \<open>try_body\<close> from the upload on.
\<close>

definition upload_and_after :: "script \<Rightarrow> service \<Rightarrow> string \<Rightarrow> string \<Rightarrow> http prog" where
  "upload_and_after s svc filename folder_id =
     bnd (upload_to_drive s svc filename folder_id) (\<lambda>response.
     bnd (close_file_handles s) (\<lambda>_.
     bnd (make_file_public s svc response) (\<lambda>_.
     bnd (cleanup_local_file s filename) (\<lambda>_.
     ret (success_response response filename)))))"

text \<open>
  The handler, from the parsed body \<open>data\<close> (the value of \<^verbatim>\<open>request.get_json()\<close>).
  Lines 72 to 76 run before the \<^verbatim>\<open>try\<close>: an exception there is not caught.
\<close>

definition video_to_drive :: "script \<Rightarrow> json \<Rightarrow> world \<Rightarrow> http \<times> world \<times> event list" where
  "video_to_drive s data w =
     (case data_get data ''url'' of
        Inl e \<Rightarrow> (Unhandled e, w, [])
      | Inr url \<Rightarrow>
          if \<not> truthy url
          then (Response 400 [(''error'', JString (cross_mark @ '' YouTube URL required''))], w, [])
          else except_500 (try_body s url) w)"

section \<open>Reading a run\<close>

text \<open>A parsed body with a \<^verbatim>\<open>get\<close> method is a dict.\<close>

fun has_get :: "json \<Rightarrow> bool" where
  "has_get (JObject kvs) = True"
| "has_get v = False"

text \<open>The calls by the stage they belong to.\<close>

fun is_download_call :: "event \<Rightarrow> bool" where
  "is_download_call (ExtractInfo url) = True"
| "is_download_call (PrepareFilename info) = True"
| "is_download_call c = False"

fun is_acquire_call :: "event \<Rightarrow> bool" where
  "is_acquire_call (GetEnv v) = True"
| "is_acquire_call (JsonLoads js) = True"
| "is_acquire_call FromClientConfig = True"
| "is_acquire_call RunLocalServer = True"
| "is_acquire_call c = False"

fun is_auth_call :: "event \<Rightarrow> bool" where
  "is_auth_call (PathExists p) = (p = ''token.pickle'')"
| "is_auth_call PickleLoad = True"
| "is_auth_call Refresh = True"
| "is_auth_call PickleDump = True"
| "is_auth_call Build = True"
| "is_auth_call c = is_acquire_call c"

fun is_folder_call :: "event \<Rightarrow> bool" where
  "is_folder_call (FilesList q) = True"
| "is_folder_call (FolderCreate n) = True"
| "is_folder_call c = False"

fun is_permissions_call :: "event \<Rightarrow> bool" where
  "is_permissions_call (PermissionsCreate file_id) = True"
| "is_permissions_call c = False"

fun is_upload_call :: "event \<Rightarrow> bool" where
  "is_upload_call (MediaFileUpload p) = True"
| "is_upload_call (FilesCreate n ps) = True"
| "is_upload_call NextChunk = True"
| "is_upload_call CloseFd = True"
| "is_upload_call c = is_permissions_call c"

fun is_remove_call :: "event \<Rightarrow> bool" where
  "is_remove_call (Remove p) = True"
| "is_remove_call c = False"

fun is_sleep_call :: "event \<Rightarrow> bool" where
  "is_sleep_call (Sleep n) = True"
| "is_sleep_call c = False"

text \<open>
  How the transfer ends according to the script: the first chunk that is not a
  progress report, if there is one.
\<close>

fun transfer_end :: "chunk list \<Rightarrow> chunk option" where
  "transfer_end [] = None"
| "transfer_end (ChunkProgress # cs) = transfer_end cs"
| "transfer_end (c # cs) = Some c"

text \<open>The number of \<^verbatim>\<open>next_chunk()\<close> calls the loop makes on a script.\<close>

fun polls :: "chunk list \<Rightarrow> nat" where
  "polls [] = 0"
| "polls (ChunkProgress # cs) = Suc (polls cs)"
| "polls (c # cs) = Suc 0"

text \<open>
  The provider's answer to a completed transfer, and the world once the new object
  is there.
\<close>

definition upload_response :: "world \<Rightarrow> (string \<times> json) list" where
  "upload_response w =
     [(''id'', JString (fresh_id (drive w))),
      (''webViewLink'', JString (web_view_link (fresh_id (drive w))))]"

definition uploaded :: "string \<Rightarrow> string list \<Rightarrow> world \<Rightarrow> world" where
  "uploaded file_name parents w =
     w\<lparr>drive := drive w @ [new_file (fresh_id (drive w)) file_name parents]\<rparr>"

text \<open>A folder of the given name that is not trashed.\<close>

definition is_live_folder :: "string \<Rightarrow> remote_obj \<Rightarrow> bool" where
  "is_live_folder folder_name obj =
     (obj_name obj = folder_name \<and> obj_mime obj = folder_mime \<and> \<not> obj_trashed obj)"

text \<open>The calls of the upload, the permission grant and the cleanup.\<close>

definition is_late_call :: "event \<Rightarrow> bool" where
  "is_late_call c = (is_upload_call c \<or> is_remove_call c \<or> is_sleep_call c)"

text \<open>Every call a program makes, from any world, satisfies \<open>P\<close>.\<close>

definition emits :: "(event \<Rightarrow> bool) \<Rightarrow> 'a prog \<Rightarrow> bool" where
  "emits P m = (\<forall>w r w' t. m w = (r, w', t) \<longrightarrow> list_all P t)"

text \<open>No run of a program changes the component \<open>g\<close> of the world.\<close>

definition keeps :: "(world \<Rightarrow> 'b) \<Rightarrow> 'a prog \<Rightarrow> bool" where
  "keeps g m = (\<forall>w r w' t. m w = (r, w', t) \<longrightarrow> g w' = g w)"

text \<open>The world after the upload and the permission grant.\<close>

definition granted :: "string \<Rightarrow> string list \<Rightarrow> world \<Rightarrow> world" where
  "granted file_name parents w =
     (uploaded file_name parents w)
       \<lparr>drive := grant_public (JString (fresh_id (drive w)))
                  (drive (uploaded file_name parents w))\<rparr>"

section \<open>Sample inputs\<close>

text \<open>
  A request for one video, a world with a valid cached credential and an empty
  provider, and a script in which every collaborator succeeds: the tool prepares
  \<^verbatim>\<open>downloads/abc.webm\<close> and leaves \<^verbatim>\<open>downloads/abc.mp4\<close> on disk.
\<close>

definition request :: json where
  "request = JObject [(''url'', JString ''https://example.com/watch?v=abc'')]"

definition good_cred :: cred where
  "good_cred = \<lparr>access_token = Some ''ya29.a0'', expired = False, refresh_token = Some ''1//0g''\<rparr>"

definition stale_cred :: cred where
  "stale_cred = \<lparr>access_token = Some ''ya29.old'', expired = True, refresh_token = Some ''1//0g''\<rparr>"

definition ok_world :: world where
  "ok_world =
     \<lparr>disk = {}, token_pickle = Some (Holds good_cred), environ = Some ''{}'',
      drive = []\<rparr>"

definition ok_script :: script where
  "ok_script =
     \<lparr>ydl_writes = {''downloads/abc.mp4''},
      extract_info_r = Inr (JObject [(''title'', JString ''abc''), (''ext'', JString ''webm'')]),
      prepare_filename_r = Inr ''downloads/abc.webm'',
      pickle_load_r = None,
      refresh_r = Inr good_cred,
      json_loads_r = None,
      from_client_config_r = None,
      run_local_server_r = Inr good_cred,
      pickle_dump_r = None,
      build_r = None,
      files_list_r = None,
      folder_create_r = None,
      media_r = None,
      chunks = [ChunkProgress, ChunkComplete],
      fd_close_r = None,
      permissions_r = None,
      remove1_r = None,
      remove2_r = None\<rparr>"

definition http_error :: exn where
  "http_error = Exn (OtherException ''HttpError'') ''403 Forbidden''"

definition locked :: exn where
  "locked = Exn PermissionError ''[WinError 32] file is being used by another process''"

definition refresh_error :: exn where
  "refresh_error = Exn (OtherException ''RefreshError'') ''invalid_grant''"

text \<open>Variations of the script and of the world, one failure each.\<close>

definition no_output_script :: script where
  "no_output_script = ok_script\<lparr>ydl_writes := {}\<rparr>"

definition deny_script :: script where
  "deny_script = ok_script\<lparr>permissions_r := Some http_error\<rparr>"

definition broken_upload_script :: script where
  "broken_upload_script = ok_script\<lparr>chunks := [ChunkProgress, ChunkRaises http_error]\<rparr>"

definition locked_script :: script where
  "locked_script = ok_script\<lparr>remove1_r := Some locked\<rparr>"

definition locked_twice_script :: script where
  "locked_twice_script = ok_script\<lparr>remove1_r := Some locked, remove2_r := Some locked\<rparr>"

definition refresh_fails_script :: script where
  "refresh_fails_script = ok_script\<lparr>refresh_r := Inl refresh_error\<rparr>"

definition stale_world :: world where
  "stale_world = ok_world\<lparr>token_pickle := Some (Holds stale_cred)\<rparr>"

definition cold_world :: world where
  "cold_world = ok_world\<lparr>token_pickle := None, environ := None\<rparr>"

definition leftover_world :: world where
  "leftover_world = ok_world\<lparr>disk := {''downloads/abc.mp4''}\<rparr>"

definition webm_script :: script where
  "webm_script = ok_script\<lparr>ydl_writes := {''downloads/abc.webm''}\<rparr>"

definition songs_folder :: remote_obj where
  "songs_folder =
     \<lparr>obj_id = ''1AbC'', obj_name = ''YouTubeSong'', obj_mime = folder_mime,
      obj_parents = [], obj_trashed = False, obj_public = False\<rparr>"

definition songs_world :: world where
  "songs_world = ok_world\<lparr>drive := [songs_folder]\<rparr>"

text \<open>A folder name with quotes in it, and a provider that holds a folder of that name.\<close>

definition quoted_name :: string where
  "quoted_name = ''a'' @ [CHR 0x27] @ '' and name='' @ [CHR 0x27] @ ''a''"

definition quoted_folder :: remote_obj where
  "quoted_folder =
     \<lparr>obj_id = ''1XyZ'', obj_name = quoted_name, obj_mime = folder_mime,
      obj_parents = [], obj_trashed = False, obj_public = False\<rparr>"

definition quoted_world :: world where
  "quoted_world = ok_world\<lparr>drive := [quoted_folder]\<rparr>"

section \<open>Running a program\<close>

lemma after_Nil [simp]: "after [] x = x"
  by (cases x) simp

lemma after_after [simp]: "after t1 (after t2 x) = after (t1 @ t2) x"
  by (cases x) simp

lemma bnd_emit [simp]: "bnd (emit c) f w = after [c] (f () w)"
  by (simp add: bnd_def emit_def)

lemma bnd_ret [simp]: "bnd (ret x) f w = f x w"
  by (simp add: bnd_def ret_def)

lemma bnd_raise [simp]: "bnd (raise e) f w = (Raised e, w, [])"
  by (simp add: bnd_def raise_def)

lemma bnd_fail_if_None [simp]: "bnd (fail_if None) f w = f () w"
  by (simp add: fail_if_def)

lemma bnd_fail_if_Some [simp]: "bnd (fail_if (Some e)) f w = (Raised e, w, [])"
  by (simp add: fail_if_def)

lemma bnd_lift_Inr [simp]: "bnd (lift (Inr x)) f w = f x w"
  by (simp add: lift_def)

lemma bnd_lift_Inl [simp]: "bnd (lift (Inl e)) f w = (Raised e, w, [])"
  by (simp add: lift_def)

lemma bnd_get_world [simp]: "bnd (get_world g) f w = f (g w) w"
  by (simp add: bnd_def get_world_def)

lemma bnd_set_world [simp]: "bnd (set_world h) f w = f () (h w)"
  by (simp add: bnd_def set_world_def)

lemma bnd_Ok: "m w = (Ok x, w1, t1) \<Longrightarrow> bnd m f w = after t1 (f x w1)"
  by (simp add: bnd_def)

lemma bnd_Raised: "m w = (Raised e, w1, t1) \<Longrightarrow> bnd m f w = (Raised e, w1, t1)"
  by (simp add: bnd_def)

lemma bnd_Diverged: "m w = (Diverged, w1, t1) \<Longrightarrow> bnd m f w = (Diverged, w1, t1)"
  by (simp add: bnd_def)

lemma after_eq: "after t1 x = (r, w, t) \<longleftrightarrow> (\<exists>t2. x = (r, w, t2) \<and> t = t1 @ t2)"
  by (cases x) auto

lemma bnd_OkE:
  assumes "bnd m f w = (Ok y, w', t)"
  obtains x w1 t1 t2 where "m w = (Ok x, w1, t1)" and "f x w1 = (Ok y, w', t2)" and "t = t1 @ t2"
proof -
  obtain r w1 t1 where m: "m w = (r, w1, t1)" by (cases "m w")
  show thesis
  proof (cases r)
    case (Ok x)
    with assms m have "after t1 (f x w1) = (Ok y, w', t)" by (simp add: bnd_def)
    then obtain t2 where "f x w1 = (Ok y, w', t2)" and "t = t1 @ t2"
      by (auto simp: after_eq)
    with m Ok that show thesis by blast
  next
    case (Raised e)
    with assms m show thesis by (simp add: bnd_def)
  next
    case Diverged
    with assms m show thesis by (simp add: bnd_def)
  qed
qed

subsection \<open>The calls a program makes\<close>

lemma emitsI: "(\<And>w r w' t. m w = (r, w', t) \<Longrightarrow> list_all P t) \<Longrightarrow> emits P m"
  by (simp add: emits_def)

lemma emitsD: "emits P m \<Longrightarrow> m w = (r, w', t) \<Longrightarrow> list_all P t"
  by (auto simp: emits_def)

lemma emits_ret [intro!, simp]: "emits P (ret x)"
  by (simp add: emits_def ret_def)

lemma emits_raise [intro!, simp]: "emits P (raise e)"
  by (simp add: emits_def raise_def)

lemma emits_emit [intro!]: "P c \<Longrightarrow> emits P (emit c)"
  by (auto simp: emits_def emit_def)

lemma emits_fail_if [intro!, simp]: "emits P (fail_if r)"
  by (cases r) (simp_all add: fail_if_def)

lemma emits_lift [intro!, simp]: "emits P (lift r)"
  by (cases r) (simp_all add: lift_def)

lemma emits_get_world [intro!, simp]: "emits P (get_world g)"
  by (simp add: emits_def get_world_def)

lemma emits_set_world [intro!, simp]: "emits P (set_world h)"
  by (simp add: emits_def set_world_def)

lemma emits_bnd [intro!]:
  assumes "emits P m" and "\<And>x. emits P (f x)"
  shows "emits P (bnd m f)"
proof (rule emitsI)
  fix w r w' t
  assume run: "bnd m f w = (r, w', t)"
  obtain r1 w1 t1 where m: "m w = (r1, w1, t1)" by (cases "m w")
  have t1: "list_all P t1" using assms(1) m by (rule emitsD)
  show "list_all P t"
  proof (cases r1)
    case (Ok x)
    with run m obtain t2 where "f x w1 = (r, w', t2)" and "t = t1 @ t2"
      by (auto simp: bnd_def after_eq)
    with assms(2) t1 show ?thesis by (auto dest: emitsD)
  next
    case (Raised e)
    with run m t1 show ?thesis by (simp add: bnd_def)
  next
    case Diverged
    with run m t1 show ?thesis by (simp add: bnd_def)
  qed
qed

lemma emits_except_pass [intro!]: "emits P m \<Longrightarrow> emits P (except_pass m)"
  by (auto simp: emits_def except_pass_def split: prod.splits result.splits)

lemma emits_except_permission_error [intro!]:
  assumes "emits P m" and "emits P h"
  shows "emits P (except_permission_error m h)"
proof (rule emitsI)
  fix w r w' t
  assume run: "except_permission_error m h w = (r, w', t)"
  obtain r1 w1 t1 where m: "m w = (r1, w1, t1)" by (cases "m w")
  have t1: "list_all P t1" using assms(1) m by (rule emitsD)
  show "list_all P t"
  proof (cases r1)
    case (Raised e)
    show ?thesis
    proof (cases "is_permission_error e")
      case True
      with run m Raised obtain t2 where "h w1 = (r, w', t2)" and "t = t1 @ t2"
        by (auto simp: except_permission_error_def after_eq)
      with assms(2) t1 show ?thesis by (auto dest: emitsD)
    next
      case False
      with run m Raised t1 show ?thesis by (simp add: except_permission_error_def)
    qed
  next
    case (Ok x)
    with run m t1 show ?thesis by (simp add: except_permission_error_def)
  next
    case Diverged
    with run m t1 show ?thesis by (simp add: except_permission_error_def)
  qed
qed

lemma emits_mono: "emits P m \<Longrightarrow> (\<And>c. P c \<Longrightarrow> Q c) \<Longrightarrow> emits Q m"
  by (auto simp: emits_def list_all_iff)

lemma emits_next_chunks: "P NextChunk \<Longrightarrow> emits P (next_chunks cs n ps)"
proof (induction cs)
  case Nil
  then show ?case by (simp add: emits_def)
next
  case (Cons c cs)
  then show ?case
    by (cases c) (auto simp: emits_def after_eq Let_def)
qed

subsection \<open>What a program leaves unchanged\<close>

lemma keepsD: "keeps g m \<Longrightarrow> m w = (r, w', t) \<Longrightarrow> g w' = g w"
  by (auto simp: keeps_def)

lemma keeps_ret [intro!, simp]: "keeps g (ret x)"
  by (simp add: keeps_def ret_def)

lemma keeps_raise [intro!, simp]: "keeps g (raise e)"
  by (simp add: keeps_def raise_def)

lemma keeps_emit [intro!, simp]: "keeps g (emit c)"
  by (simp add: keeps_def emit_def)

lemma keeps_fail_if [intro!, simp]: "keeps g (fail_if r)"
  by (cases r) (simp_all add: fail_if_def)

lemma keeps_lift [intro!, simp]: "keeps g (lift r)"
  by (cases r) (simp_all add: lift_def)

lemma keeps_get_world [intro!, simp]: "keeps g (get_world f)"
  by (simp add: keeps_def get_world_def)

lemma keeps_set_world [intro!]: "(\<And>w. g (h w) = g w) \<Longrightarrow> keeps g (set_world h)"
  by (simp add: keeps_def set_world_def)

lemma keeps_bnd [intro!]:
  assumes "keeps g m" and "\<And>x. keeps g (f x)"
  shows "keeps g (bnd m f)"
  unfolding keeps_def
proof (intro allI impI)
  fix w r w' t
  assume run: "bnd m f w = (r, w', t)"
  obtain r1 w1 t1 where m: "m w = (r1, w1, t1)" by (cases "m w")
  have g1: "g w1 = g w" using assms(1) m by (rule keepsD)
  show "g w' = g w"
  proof (cases r1)
    case (Ok x)
    with run m obtain t2 where "f x w1 = (r, w', t2)"
      by (auto simp: bnd_def after_eq)
    then have "g w' = g w1" using assms(2) by (rule keepsD[rotated])
    with g1 show ?thesis by simp
  next
    case (Raised e)
    with run m g1 show ?thesis by (simp add: bnd_def)
  next
    case Diverged
    with run m g1 show ?thesis by (simp add: bnd_def)
  qed
qed

lemma keeps_except_pass [intro!]: "keeps g m \<Longrightarrow> keeps g (except_pass m)"
  by (auto simp: keeps_def except_pass_def split: prod.splits result.splits)

subsection \<open>The provider reads the folder query\<close>

text \<open>
  For a name with no quote and no backslash in it, the text of line 57 is read by
  the provider as the three terms it is meant to be, and the listing is the folders
  of that name that are not trashed.
\<close>

lemma strip_prefix_append: "strip_prefix p (p @ r) = Some r"
  by (induction p) simp_all

lemma read_literal_plain:
  assumes "CHR 0x27 \<notin> set n" and "CHR 0x5C \<notin> set n"
  shows "read_literal acc (n @ CHR 0x27 # rest) = Some (rev acc @ n, rest)"
  using assms by (induction n arbitrary: acc) auto

lemma parse_term_name:
  assumes "CHR 0x27 \<notin> set n" and "CHR 0x5C \<notin> set n"
  shows "parse_term (''name='' @ [CHR 0x27] @ n @ [CHR 0x27] @ rest) = Some (NameIs n, rest)"
  using read_literal_plain[OF assms, of "[]" rest] by (simp add: parse_term_def)

lemma parse_term_mime:
  "parse_term (''mimeType='' @ [CHR 0x27] @ folder_mime @ [CHR 0x27] @ rest)
     = Some (MimeTypeIs folder_mime, rest)"
  by (simp add: parse_term_def folder_mime_def)

lemma parse_term_trashed: "parse_term ''trashed=false'' = Some (TrashedIs False, [])"
  by (simp add: parse_term_def)

lemma parse_terms_folder_query:
  assumes "CHR 0x27 \<notin> set n" and "CHR 0x5C \<notin> set n"
  shows "parse_terms (Suc (Suc (Suc k))) (folder_query n)
           = Some [NameIs n, MimeTypeIs folder_mime, TrashedIs False]"
proof -
  let ?r2 = "''mimeType='' @ [CHR 0x27] @ folder_mime @ [CHR 0x27] @ '' and trashed=false''"
  have q: "folder_query n = ''name='' @ [CHR 0x27] @ n @ [CHR 0x27] @ ('' and '' @ ?r2)"
    by (simp add: folder_query_def)
  have t1: "parse_term (folder_query n) = Some (NameIs n, '' and '' @ ?r2)"
    unfolding q by (rule parse_term_name[OF assms])
  have t2: "parse_term ?r2 = Some (MimeTypeIs folder_mime, '' and '' @ ''trashed=false'')"
    using parse_term_mime[of "'' and trashed=false''"] by simp
  have s1: "strip_prefix '' and '' ('' and '' @ ?r2) = Some ?r2"
    by (rule strip_prefix_append)
  have s2: "strip_prefix '' and '' ('' and '' @ ''trashed=false'') = Some ''trashed=false''"
    by (rule strip_prefix_append)
  have p3: "parse_terms (Suc k) ''trashed=false'' = Some [TrashedIs False]"
    by (simp add: parse_term_trashed)
  have p2: "parse_terms (Suc (Suc k)) ?r2 = Some [MimeTypeIs folder_mime, TrashedIs False]"
    using t2 s2 p3 by (simp del: parse_terms.simps add: parse_terms.simps(2)[of "Suc k"])
  show ?thesis
    using t1 s1 p2 by (simp del: parse_terms.simps add: parse_terms.simps(2)[of "Suc (Suc k)"])
qed

lemma length_folder_query: "length (folder_query n) = Suc (Suc (Suc (length n + 72)))"
  by (simp add: folder_query_def folder_mime_def)

lemma parse_query_folder_query:
  assumes "CHR 0x27 \<notin> set n" and "CHR 0x5C \<notin> set n"
  shows "parse_query (folder_query n) = Some [NameIs n, MimeTypeIs folder_mime, TrashedIs False]"
  unfolding parse_query_def length_folder_query by (rule parse_terms_folder_query[OF assms])

lemma drive_files_list_folder:
  assumes "CHR 0x27 \<notin> set n" and "CHR 0x5C \<notin> set n"
  shows "drive_files_list (folder_query n) d = Inr (filter (is_live_folder n) d)"
proof -
  have "list_all (term_holds obj) [NameIs n, MimeTypeIs folder_mime, TrashedIs False]
          = is_live_folder n obj" for obj
    by (simp add: is_live_folder_def)
  then show ?thesis
    by (simp add: drive_files_list_def parse_query_folder_query[OF assms])
qed

subsection \<open>The stages\<close>

lemma emits_download_video: "emits is_download_call (download_video s url)"
  unfolding download_video_def by (intro emits_bnd emits_emit) simp_all

lemma emits_path_exists: "emits (\<lambda>c. c = PathExists p) (path_exists p)"
  unfolding path_exists_def by (intro emits_bnd emits_emit) simp_all

lemma emits_acquire: "emits is_auth_call (acquire s)"
  unfolding acquire_def
  by (intro emits_bnd emits_emit) (simp_all split: option.splits add: emits_bnd emits_emit)

lemma emits_get_gdrive_service: "emits is_auth_call (get_gdrive_service s)"
  unfolding get_gdrive_service_def token_exists_def pickle_load_def login_def pickle_dump_def
  by (intro emits_bnd emits_emit) (simp_all split: option.splits pickle_file.splits write_failure.splits
        add: emits_bnd emits_emit emits_acquire)

lemma keeps_acquire: "keeps g (acquire s)"
  unfolding acquire_def
  by (intro keeps_bnd) (simp_all split: option.splits add: keeps_bnd)

lemma keeps_disk_get_gdrive_service: "keeps disk (get_gdrive_service s)"
  unfolding get_gdrive_service_def token_exists_def pickle_load_def login_def pickle_dump_def
  by (intro keeps_bnd) (simp_all split: option.splits pickle_file.splits write_failure.splits
        add: keeps_bnd keeps_set_world keeps_acquire)

lemma keeps_drive_get_gdrive_service: "keeps drive (get_gdrive_service s)"
  unfolding get_gdrive_service_def token_exists_def pickle_load_def login_def pickle_dump_def
  by (intro keeps_bnd) (simp_all split: option.splits pickle_file.splits write_failure.splits
        add: keeps_bnd keeps_set_world keeps_acquire)

lemma emits_get_or_create_folder: "emits is_folder_call (get_or_create_folder s svc n)"
  unfolding get_or_create_folder_def Let_def
  by (intro emits_bnd emits_emit) (simp_all split: list.splits add: emits_bnd emits_emit)

lemma keeps_disk_get_or_create_folder: "keeps disk (get_or_create_folder s svc n)"
  unfolding get_or_create_folder_def Let_def
  by (intro keeps_bnd) (simp_all split: list.splits add: keeps_bnd keeps_set_world)

subsection \<open>Each stage, run\<close>

lemma transfer_end_not_progress: "transfer_end cs \<noteq> Some ChunkProgress"
  by (induction cs rule: transfer_end.induct) simp_all

lemma next_chunks_run:
  "next_chunks cs n ps w =
     (case transfer_end cs of
        None \<Rightarrow> (Diverged, w, replicate (polls cs) NextChunk)
      | Some ChunkProgress \<Rightarrow> (Diverged, w, replicate (polls cs) NextChunk)
      | Some (ChunkRaises e) \<Rightarrow> (Raised e, w, replicate (polls cs) NextChunk)
      | Some ChunkComplete \<Rightarrow>
          (Ok (upload_response w), uploaded n ps w, replicate (polls cs) NextChunk))"
proof (induction cs)
  case Nil
  show ?case by simp
next
  case (Cons c cs)
  show ?case
  proof (cases c)
    case ChunkProgress
    with Cons show ?thesis by (simp split: option.splits chunk.splits)
  next
    case ChunkComplete
    then show ?thesis by (simp add: upload_response_def uploaded_def Let_def)
  next
    case (ChunkRaises e)
    then show ?thesis by simp
  qed
qed

lemma download_video_run:
  "download_video s url w =
     (case extract_info_r s of
        Inl e \<Rightarrow> (Raised e, w\<lparr>disk := disk w \<union> ydl_writes s\<rparr>, [ExtractInfo url])
      | Inr info \<Rightarrow>
          (case prepare_filename_r s of
             Inl e \<Rightarrow> (Raised e, w\<lparr>disk := disk w \<union> ydl_writes s\<rparr>,
                        [ExtractInfo url, PrepareFilename info])
           | Inr fn \<Rightarrow> (Ok (normalize_ext fn), w\<lparr>disk := disk w \<union> ydl_writes s\<rparr>,
                        [ExtractInfo url, PrepareFilename info])))"
  by (simp add: download_video_def ret_def split: sum.splits)

lemma path_exists_run: "path_exists p w = (Ok (p \<in> disk w), w, [PathExists p])"
  by (simp add: path_exists_def get_world_def)

lemma os_remove_run:
  "os_remove r p w =
     (case r of
        Some e \<Rightarrow> (Raised e, w, [Remove p])
      | None \<Rightarrow> if p \<in> disk w then (Ok (), w\<lparr>disk := disk w - {p}\<rparr>, [Remove p])
                else (Raised (Exn FileNotFoundError p), w, [Remove p]))"
  by (simp add: os_remove_def set_world_def raise_def split: option.splits)

lemma cleanup_local_file_run:
  "cleanup_local_file s f w =
     (if f \<notin> disk w then (Ok (), w, [PathExists f])
      else case remove1_r s of
             None \<Rightarrow> (Ok (), w\<lparr>disk := disk w - {f}\<rparr>, [PathExists f, Remove f])
           | Some e1 \<Rightarrow>
               if is_permission_error e1
               then (case remove2_r s of
                       None \<Rightarrow> (Ok (), w\<lparr>disk := disk w - {f}\<rparr>,
                                [PathExists f, Remove f, Sleep 2, Remove f])
                     | Some e2 \<Rightarrow> (Raised e2, w, [PathExists f, Remove f, Sleep 2, Remove f]))
               else (Raised e1, w, [PathExists f, Remove f]))"
  by (simp add: cleanup_local_file_def except_permission_error_def bnd_Ok[OF path_exists_run]
        os_remove_run time_sleep_def ret_def split: option.splits)

lemma close_file_handles_run: "close_file_handles s w = (Ok (), w, [CloseFd])"
  by (cases "fd_close_r s") (simp_all add: close_file_handles_def except_pass_def bnd_def emit_def fail_if_def ret_def raise_def)

lemma upload_to_drive_run:
  "upload_to_drive s svc f fid w =
     (case media_r s of
        Some e \<Rightarrow> (Raised e, w, [MediaFileUpload f])
      | None \<Rightarrow> after [MediaFileUpload f, FilesCreate (basename f) [fid]]
                  (next_chunks (chunks s) (basename f) [fid] w))"
  by (simp add: upload_to_drive_def split: option.splits)

lemma make_file_public_run:
  "make_file_public s svc (upload_response w0) w =
     (case permissions_r s of
        Some e \<Rightarrow> (Raised e, w, [PermissionsCreate (JString (fresh_id (drive w0)))])
      | None \<Rightarrow> (Ok (), w\<lparr>drive := grant_public (JString (fresh_id (drive w0))) (drive w)\<rparr>,
                 [PermissionsCreate (JString (fresh_id (drive w0)))]))"
  by (simp add: make_file_public_def upload_response_def set_world_def split: option.splits)

lemma upload_and_after_run:
  "upload_and_after s svc f fid w =
     (case media_r s of
        Some e \<Rightarrow> (Raised e, w, [MediaFileUpload f])
      | None \<Rightarrow>
          after ([MediaFileUpload f, FilesCreate (basename f) [fid]]
                   @ replicate (polls (chunks s)) NextChunk)
            (case transfer_end (chunks s) of
               None \<Rightarrow> (Diverged, w, [])
             | Some ChunkProgress \<Rightarrow> (Diverged, w, [])
             | Some (ChunkRaises e) \<Rightarrow> (Raised e, w, [])
             | Some ChunkComplete \<Rightarrow>
                 after [CloseFd, PermissionsCreate (JString (fresh_id (drive w)))]
                   (case permissions_r s of
                      Some e \<Rightarrow> (Raised e, uploaded (basename f) [fid] w, [])
                    | None \<Rightarrow>
                        bnd (cleanup_local_file s f)
                          (\<lambda>_. ret (success_response (upload_response w) f))
                          (granted (basename f) [fid] w))))"
  by (simp add: upload_and_after_def bnd_def upload_to_drive_run next_chunks_run
        close_file_handles_run make_file_public_run granted_def
      split: option.splits chunk.splits)

lemma get_or_create_folder_run:
  "get_or_create_folder s svc n w =
     (case files_list_r s of
        Some e \<Rightarrow> (Raised e, w, [FilesList (folder_query n)])
      | None \<Rightarrow>
          (case drive_files_list (folder_query n) (drive w) of
             Inl e \<Rightarrow> (Raised e, w, [FilesList (folder_query n)])
           | Inr (f # fs) \<Rightarrow> (Ok (obj_id f), w, [FilesList (folder_query n)])
           | Inr [] \<Rightarrow>
               (case folder_create_r s of
                  Some e \<Rightarrow> (Raised e, w, [FilesList (folder_query n), FolderCreate n])
                | None \<Rightarrow>
                    (Ok (fresh_id (drive w)),
                     w\<lparr>drive := drive w @ [new_folder (fresh_id (drive w)) n]\<rparr>,
                     [FilesList (folder_query n), FolderCreate n]))))"
  by (simp add: get_or_create_folder_def Let_def ret_def
      split: option.splits list.splits sum.splits)

lemma grows_get_or_create_folder:
  "get_or_create_folder s svc n w = (r, w', t) \<Longrightarrow> \<exists>d. drive w' = drive w @ d"
  by (auto simp: get_or_create_folder_run split: option.splits list.splits sum.splits)

lemma upload_and_after_fun:
  "upload_and_after s svc filename =
     (\<lambda>folder_id.
        bnd (upload_to_drive s svc filename folder_id) (\<lambda>response.
        bnd (close_file_handles s) (\<lambda>_.
        bnd (make_file_public s svc response) (\<lambda>_.
        bnd (cleanup_local_file s filename) (\<lambda>_.
        ret (success_response response filename))))))"
  by (rule ext) (simp add: upload_and_after_def)

lemma try_body_unfold:
  "try_body s url =
     bnd (download_video s url) (\<lambda>filename.
     bnd (path_exists filename) (\<lambda>ex.
       if \<not> ex
       then ret (Response 500 [(''error'', JString ''File not found after download'')])
       else
         bnd (get_gdrive_service s) (\<lambda>svc.
         bnd (get_or_create_folder s svc ''YouTubeSong'') (\<lambda>folder_id.
         upload_and_after s svc filename folder_id))))"
  unfolding try_body_def upload_and_after_fun by (rule refl)

lemma not_late_download: "is_download_call c \<Longrightarrow> \<not> is_late_call c"
  by (cases c) (simp_all add: is_late_call_def)

lemma not_late_auth: "is_auth_call c \<Longrightarrow> \<not> is_late_call c"
  by (cases c) (simp_all add: is_late_call_def)

lemma not_late_folder: "is_folder_call c \<Longrightarrow> \<not> is_late_call c"
  by (cases c) (simp_all add: is_late_call_def)

lemma try_body_late:
  assumes run: "try_body s url w = (r, w', t)"
      and reach: "list_ex is_late_call t \<or> (\<exists>body. r = Ok (Response 200 body))"
  obtains fn svc fid w3 t3 t4 where
    "prepare_filename_r s = Inr fn"
    and "normalize_ext fn \<in> disk w3"
    and "disk w3 = disk w \<union> ydl_writes s"
    and "\<exists>d. drive w3 = drive w @ d"
    and "upload_and_after s svc (normalize_ext fn) fid w3 = (r, w', t4)"
    and "t = t3 @ t4"
    and "list_all (\<lambda>c. \<not> is_late_call c) t3"
proof -
  let ?w1 = "w\<lparr>disk := disk w \<union> ydl_writes s\<rparr>"
  from reach have reach':
    "\<not> list_all (\<lambda>c. \<not> is_late_call c) t \<or> (\<exists>body. r = Ok (Response 200 body))"
    by (auto simp: list_all_iff list_ex_iff)
  obtain info where info: "extract_info_r s = Inr info"
    using run reach'
    by (cases "extract_info_r s")
       (auto simp: try_body_unfold bnd_def download_video_run is_late_call_def)
  obtain fn where fn: "prepare_filename_r s = Inr fn"
    using run reach' info
    by (cases "prepare_filename_r s")
       (auto simp: try_body_unfold bnd_def download_video_run is_late_call_def)
  let ?f = "normalize_ext fn"
  let ?t1 = "[ExtractInfo url, PrepareFilename info, PathExists ?f]"
  have dl: "download_video s url w = (Ok ?f, ?w1, [ExtractInfo url, PrepareFilename info])"
    by (simp add: download_video_run info fn)
  have step1: "bnd (download_video s url) k w =
      after [ExtractInfo url, PrepareFilename info] (k ?f ?w1)" for k :: "string \<Rightarrow> http prog"
    using dl by (simp add: bnd_def)
  have step2: "bnd (path_exists ?f) k ?w1 =
      after [PathExists ?f] (k (?f \<in> disk ?w1) ?w1)" for k :: "bool \<Rightarrow> http prog"
    by (simp add: bnd_def path_exists_run)
  have there: "?f \<in> disk ?w1"
    using run reach'
    by (auto simp: try_body_unfold step1 step2 ret_def is_late_call_def split: if_splits)
  then have rest: "after ?t1
      (bnd (get_gdrive_service s) (\<lambda>svc.
       bnd (get_or_create_folder s svc ''YouTubeSong'') (\<lambda>folder_id.
       upload_and_after s svc ?f folder_id)) ?w1) = (r, w', t)"
    using run by (simp add: try_body_unfold step1 step2)
  then obtain ta where ta: "bnd (get_gdrive_service s) (\<lambda>svc.
       bnd (get_or_create_folder s svc ''YouTubeSong'') (\<lambda>folder_id.
       upload_and_after s svc ?f folder_id)) ?w1 = (r, w', ta)" and t: "t = ?t1 @ ta"
    by (auto simp: after_eq)
  obtain r2 w2 t2 where auth: "get_gdrive_service s ?w1 = (r2, w2, t2)"
    by (cases "get_gdrive_service s ?w1")
  have t2: "list_all is_auth_call t2"
    using emits_get_gdrive_service auth by (rule emitsD)
  then have t2': "list_all (\<lambda>c. \<not> is_late_call c) t2"
    by (auto simp: list_all_iff not_late_auth)
  have disk2: "disk w2 = disk ?w1"
    using keeps_disk_get_gdrive_service auth by (rule keepsD)
  have drive2: "drive w2 = drive ?w1"
    using keeps_drive_get_gdrive_service auth by (rule keepsD)
  obtain svc where svc: "r2 = Ok svc"
    using ta t reach' t2' auth
    by (cases r2) (auto simp: bnd_def is_late_call_def)
  then obtain tb where tb: "bnd (get_or_create_folder s svc ''YouTubeSong'') (\<lambda>folder_id.
       upload_and_after s svc ?f folder_id) w2 = (r, w', tb)" and ta': "ta = t2 @ tb"
    using ta auth by (auto simp: bnd_def after_eq)
  obtain r3 w3 t3 where folder: "get_or_create_folder s svc ''YouTubeSong'' w2 = (r3, w3, t3)"
    by (cases "get_or_create_folder s svc ''YouTubeSong'' w2")
  have t3: "list_all is_folder_call t3"
    using emits_get_or_create_folder folder by (rule emitsD)
  then have t3': "list_all (\<lambda>c. \<not> is_late_call c) t3"
    by (auto simp: list_all_iff not_late_folder)
  have disk3: "disk w3 = disk w2"
    using keeps_disk_get_or_create_folder folder by (rule keepsD)
  obtain d where drive3: "drive w3 = drive w2 @ d"
    using grows_get_or_create_folder[OF folder] by blast
  obtain fid where fid: "r3 = Ok fid"
    using tb ta' t reach' t2' t3' folder
    by (cases r3) (auto simp: bnd_def is_late_call_def)
  then obtain t4 where t4: "upload_and_after s svc ?f fid w3 = (r, w', t4)" and tb': "tb = t3 @ t4"
    using tb folder by (auto simp: bnd_def after_eq)
  show thesis
  proof (rule that[of fn w3 svc fid t4 "?t1 @ t2 @ t3"])
    show "prepare_filename_r s = Inr fn" by (rule fn)
    show "normalize_ext fn \<in> disk w3" using there disk2 disk3 by simp
    show "disk w3 = disk w \<union> ydl_writes s" using disk2 disk3 by simp
    show "\<exists>d. drive w3 = drive w @ d" using drive2 drive3 by simp
    show "upload_and_after s svc (normalize_ext fn) fid w3 = (r, w', t4)" by (rule t4)
    show "t = (?t1 @ t2 @ t3) @ t4" using t ta' tb' by simp
    show "list_all (\<lambda>c. \<not> is_late_call c) (?t1 @ t2 @ t3)"
      using t2' t3' by (simp add: is_late_call_def)
  qed
qed



lemma video_to_drive_late:
  assumes run: "video_to_drive s data w = (r, w', t)"
      and reach: "list_ex is_late_call t \<or> status_of r = Some 200"
  obtains url r0 where "data_get data ''url'' = Inr url" and "truthy url"
    and "try_body s url w = (r0, w', t)"
    and "r = (case r0 of Ok h \<Rightarrow> h | Raised e \<Rightarrow> error_response e | Diverged \<Rightarrow> NoResponse)"
    and "list_ex is_late_call t \<or> (\<exists>body. r0 = Ok (Response 200 body))"
proof (cases "data_get data ''url''")
  case (Inl e)
  with run reach show ?thesis by (auto simp: video_to_drive_def)
next
  case (Inr url)
  with run reach have tr: "truthy url"
    by (auto simp: video_to_drive_def split: if_splits)
  obtain r0 w0 t0 where body: "try_body s url w = (r0, w0, t0)" by (cases "try_body s url w")
  with run Inr tr have eqs: "w' = w0" "t = t0"
    and r: "r = (case r0 of Ok h \<Rightarrow> h | Raised e \<Rightarrow> error_response e | Diverged \<Rightarrow> NoResponse)"
    by (auto simp: video_to_drive_def except_500_def split: result.splits)
  have "list_ex is_late_call t \<or> (\<exists>body. r0 = Ok (Response 200 body))"
  proof (cases "list_ex is_late_call t")
    case True
    then show ?thesis by simp
  next
    case False
    with reach have st: "status_of r = Some 200" by simp
    show ?thesis
    proof (cases r0)
      case (Ok h)
      with r st show ?thesis by (cases h) simp_all
    next
      case (Raised e)
      with r st show ?thesis by (simp add: error_response_def)
    next
      case Diverged
      with r st show ?thesis by simp
    qed
  qed
  with Inr tr body eqs r that show ?thesis by blast
qed


lemma late_remove: "is_remove_call c \<Longrightarrow> is_late_call c"
  by (simp add: is_late_call_def)

lemma late_upload: "is_upload_call c \<Longrightarrow> is_late_call c"
  by (simp add: is_late_call_def)

subsection \<open>Evaluating the samples\<close>

lemmas sample_defs = request_def ok_script_def ok_world_def good_cred_def stale_cred_def
  http_error_def locked_def refresh_error_def no_output_script_def deny_script_def broken_upload_script_def
  locked_script_def locked_twice_script_def refresh_fails_script_def stale_world_def
  cold_world_def leftover_world_def webm_script_def songs_folder_def songs_world_def
  quoted_name_def quoted_folder_def quoted_world_def

lemmas eval_defs = video_to_drive_def except_500_def try_body_unfold bnd_def download_video_run
  path_exists_run get_gdrive_service_def token_exists_def pickle_load_def login_def pickle_dump_def
  acquire_def refreshable_def cred_valid_def get_or_create_folder_run upload_and_after_run
  cleanup_local_file_run dict_get_def
  emit_def get_world_def set_world_def fail_if_def ret_def raise_def lift_def
  drive_files_list_folder is_live_folder_def folder_mime_def normalize_ext_def endswith_def rsplit_dot_head_def basename_def
  fresh_id_def uploaded_def granted_def new_folder_def new_file_def upload_response_def
  grant_public_def success_response_def error_response_def

subsection \<open>Strings\<close>

lemma endswith_append: "endswith (xs @ t) t"
  by (simp add: endswith_def)

lemma endswith_iff: "endswith s t \<longleftrightarrow> (\<exists>xs. s = xs @ t)"
proof
  assume "endswith s t"
  then have "s = take (length s - length t) s @ t"
    by (metis append_take_drop_id endswith_def)
  then show "\<exists>xs. s = xs @ t" ..
next
  assume "\<exists>xs. s = xs @ t"
  then show "endswith s t" by (auto simp: endswith_append)
qed

lemma normalize_ext_ends: "endswith (normalize_ext fn) ''.mp4''"
  unfolding normalize_ext_def using endswith_append[of _ "''.mp4''"] by simp

lemma basename_append:
  assumes "CHR ''/'' \<notin> set t"
  shows "basename (xs @ t) = basename xs @ t"
proof -
  have "takeWhile (\<lambda>c. c \<noteq> CHR ''/'') (rev t @ rev xs) =
        rev t @ takeWhile (\<lambda>c. c \<noteq> CHR ''/'') (rev xs)"
    by (rule takeWhile_append2) (use assms in auto)
  then show ?thesis by (simp add: basename_def)
qed

lemma basename_ends: "endswith p ''.mp4'' \<Longrightarrow> endswith (basename p) ''.mp4''"
proof -
  assume "endswith p ''.mp4''"
  then obtain xs where "p = xs @ ''.mp4''" by (auto simp: endswith_iff)
  then have "basename p = basename xs @ ''.mp4''"
    by (simp add: basename_append)
  then show ?thesis by (simp add: endswith_append)
qed

lemma mp4_not_token: "endswith p ''.mp4'' \<Longrightarrow> p \<noteq> ''token.pickle''"
  by (auto simp: endswith_def)

subsection \<open>Runs that come to the upload\<close>


lemma run_triple: "video_to_drive s data w =
   (fst (video_to_drive s data w), fst (snd (video_to_drive s data w)), snd (snd (video_to_drive s data w)))"
  by simp


lemma no_remove_chunks: "\<not> list_ex is_remove_call (replicate k NextChunk)"
  by (simp add: list_ex_iff)


lemma not_Remove_chunks: "Remove f \<notin> set (replicate k NextChunk)"
  by simp

lemma not_Media_chunks: "MediaFileUpload f \<notin> set (replicate k NextChunk)"
  by simp

lemma disk_granted: "disk (granted n ps w) = disk w"
  by (simp add: granted_def uploaded_def)

lemma early_not_member:
  "list_all (\<lambda>c. \<not> is_late_call c) t3 \<Longrightarrow> is_late_call c \<Longrightarrow> c \<notin> set t3"
  by (auto simp: list_all_iff)

lemma video_to_drive_tail:
  assumes run: "video_to_drive s data w = (r, w', t)"
      and reach: "list_ex is_late_call t \<or> status_of r = Some 200"
  obtains fn svc fid w3 t3 t4 r0 where
    "prepare_filename_r s = Inr fn"
    and "normalize_ext fn \<in> disk w3"
    and "disk w3 = disk w \<union> ydl_writes s"
    and "\<exists>d. drive w3 = drive w @ d"
    and "upload_and_after s svc (normalize_ext fn) fid w3 = (r0, w', t4)"
    and "t = t3 @ t4"
    and "list_all (\<lambda>c. \<not> is_late_call c) t3"
    and "r = (case r0 of Ok h \<Rightarrow> h | Raised e \<Rightarrow> error_response e | Diverged \<Rightarrow> NoResponse)"
proof -
  from run reach obtain url r0 where
    body: "try_body s url w = (r0, w', t)" and
    r: "r = (case r0 of Ok h \<Rightarrow> h | Raised e \<Rightarrow> error_response e | Diverged \<Rightarrow> NoResponse)" and
    reach0: "list_ex is_late_call t \<or> (\<exists>body. r0 = Ok (Response 200 body))"
    by (rule video_to_drive_late)
  from body reach0 obtain fn svc fid w3 t3 t4 where
    "prepare_filename_r s = Inr fn" "normalize_ext fn \<in> disk w3"
    "disk w3 = disk w \<union> ydl_writes s" "\<exists>d. drive w3 = drive w @ d"
    "upload_and_after s svc (normalize_ext fn) fid w3 = (r0, w', t4)"
    "t = t3 @ t4" "list_all (\<lambda>c. \<not> is_late_call c) t3"
    by (rule try_body_late)
  with r that show thesis by blast
qed

lemma ok_run:
  "video_to_drive ok_script request ok_world =
     (success_response [(''id'', JString ''ii''),
                        (''webViewLink'', JString ''https://drive.google.com/file/d/ii/view'')]
        ''downloads/abc.mp4'',
      ok_world\<lparr>disk := {},
                drive := [new_folder ''i'' ''YouTubeSong'',
                          (new_file ''ii'' ''abc.mp4'' [''i''])\<lparr>obj_public := True\<rparr>]\<rparr>,
      [ExtractInfo (JString ''https://example.com/watch?v=abc''),
       PrepareFilename (JObject [(''title'', JString ''abc''), (''ext'', JString ''webm'')]),
       PathExists ''downloads/abc.mp4'', PathExists ''token.pickle'', PickleLoad, Build,
       FilesList (folder_query ''YouTubeSong''), FolderCreate ''YouTubeSong'',
       MediaFileUpload ''downloads/abc.mp4'', FilesCreate ''abc.mp4'' [''i''],
       NextChunk, NextChunk, CloseFd, PermissionsCreate (JString ''ii''),
       PathExists ''downloads/abc.mp4'', Remove ''downloads/abc.mp4''])"
  by (simp add: eval_defs sample_defs web_view_link_def)

lemma leftover_run:
  "video_to_drive webm_script request leftover_world =
     (success_response [(''id'', JString ''ii''),
                        (''webViewLink'', JString ''https://drive.google.com/file/d/ii/view'')]
        ''downloads/abc.mp4'',
      ok_world\<lparr>disk := {''downloads/abc.webm''},
                drive := [new_folder ''i'' ''YouTubeSong'',
                          (new_file ''ii'' ''abc.mp4'' [''i''])\<lparr>obj_public := True\<rparr>]\<rparr>,
      [ExtractInfo (JString ''https://example.com/watch?v=abc''),
       PrepareFilename (JObject [(''title'', JString ''abc''), (''ext'', JString ''webm'')]),
       PathExists ''downloads/abc.mp4'', PathExists ''token.pickle'', PickleLoad, Build,
       FilesList (folder_query ''YouTubeSong''), FolderCreate ''YouTubeSong'',
       MediaFileUpload ''downloads/abc.mp4'', FilesCreate ''abc.mp4'' [''i''],
       NextChunk, NextChunk, CloseFd, PermissionsCreate (JString ''ii''),
       PathExists ''downloads/abc.mp4'', Remove ''downloads/abc.mp4''])"
  by (simp add: eval_defs sample_defs web_view_link_def insert_commute)

lemma broken_upload_run:
  "video_to_drive broken_upload_script request ok_world =
     (error_response http_error,
      ok_world\<lparr>disk := {''downloads/abc.mp4''},
                drive := [new_folder ''i'' ''YouTubeSong'']\<rparr>,
      [ExtractInfo (JString ''https://example.com/watch?v=abc''),
       PrepareFilename (JObject [(''title'', JString ''abc''), (''ext'', JString ''webm'')]),
       PathExists ''downloads/abc.mp4'', PathExists ''token.pickle'', PickleLoad, Build,
       FilesList (folder_query ''YouTubeSong''), FolderCreate ''YouTubeSong'',
       MediaFileUpload ''downloads/abc.mp4'', FilesCreate ''abc.mp4'' [''i''],
       NextChunk, NextChunk])"
  by (simp add: eval_defs sample_defs)



lemma rsplit_dot_head_append:
  assumes "CHR ''.'' \<notin> set ext"
  shows "rsplit_dot_head (stem @ CHR ''.'' # ext) = stem"
proof -
  have "dropWhile (\<lambda>c. c \<noteq> CHR ''.'') (rev ext @ (CHR ''.'' # rev stem)) =
        dropWhile (\<lambda>c. c \<noteq> CHR ''.'') (CHR ''.'' # rev stem)"
    by (rule dropWhile_append2) (use assms in auto)
  then show ?thesis by (simp add: rsplit_dot_head_def)
qed

lemma last_ext:
  assumes "CHR ''.'' \<notin> set ext"
  shows "takeWhile (\<lambda>c. c \<noteq> CHR ''.'') (rev (stem @ CHR ''.'' # ext)) = rev ext"
proof -
  have "takeWhile (\<lambda>c. c \<noteq> CHR ''.'') (rev ext @ (CHR ''.'' # rev stem)) =
        rev ext @ takeWhile (\<lambda>c. c \<noteq> CHR ''.'') (CHR ''.'' # rev stem)"
    by (rule takeWhile_append2) (use assms in auto)
  then show ?thesis by simp
qed

lemma endswith_ext:
  assumes "CHR ''.'' \<notin> set ext"
  shows "endswith (stem @ CHR ''.'' # ext) ''.mp4'' \<longleftrightarrow> ext = ''mp4''"
proof
  assume "endswith (stem @ CHR ''.'' # ext) ''.mp4''"
  then obtain xs where eq: "stem @ CHR ''.'' # ext = xs @ CHR ''.'' # ''mp4''"
    by (auto simp: endswith_iff)
  have "rev ext = takeWhile (\<lambda>c. c \<noteq> CHR ''.'') (rev (stem @ CHR ''.'' # ext))"
    by (rule last_ext[OF assms, symmetric])
  also have "\<dots> = takeWhile (\<lambda>c. c \<noteq> CHR ''.'') (rev (xs @ CHR ''.'' # ''mp4''))"
    by (simp only: eq)
  also have "\<dots> = rev ''mp4''"
    by (rule last_ext) simp
  finally show "ext = ''mp4''" by simp
next
  assume "ext = ''mp4''"
  then show "endswith (stem @ CHR ''.'' # ext) ''.mp4''"
    using endswith_append[of stem "''.mp4''"] by simp
qed

lemma normalize_ext_replaces:
  assumes "CHR ''.'' \<notin> set ext" and "ext \<noteq> ''mp4''"
  shows "normalize_ext (stem @ CHR ''.'' # ext) = stem @ ''.mp4''"
  using assms by (simp add: normalize_ext_def endswith_ext rsplit_dot_head_append)

lemmas auth_defs = get_gdrive_service_def token_exists_def pickle_load_def login_def
  pickle_dump_def acquire_def refreshable_def bnd_def emit_def get_world_def set_world_def
  fail_if_def ret_def raise_def lift_def

lemma length_le_foldr_max: "x \<in> set xs \<Longrightarrow> (x::nat) \<le> foldr max xs 0"
  by (induction xs) auto

lemma fresh_id_fresh: "fresh_id d \<notin> obj_id ` set d"
proof
  assume "fresh_id d \<in> obj_id ` set d"
  then obtain obj where obj: "obj \<in> set d" and eq: "obj_id obj = fresh_id d" by auto
  from obj have "length (obj_id obj) \<in> set (map (\<lambda>obj. length (obj_id obj)) d)" by simp
  then have "length (obj_id obj) \<le> foldr max (map (\<lambda>obj. length (obj_id obj)) d) 0"
    by (rule length_le_foldr_max)
  moreover have "length (fresh_id d) = Suc (foldr max (map (\<lambda>obj. length (obj_id obj)) d) 0)"
    by (simp add: fresh_id_def)
  ultimately show False using eq by simp
qed

lemma live_new_folder: "is_live_folder n (new_folder i n)"
  by (simp add: is_live_folder_def new_folder_def)

section \<open>The claims\<close>

text \<open>
  C1, as the code has it. A request whose body is a JSON object (a dict) with no
  \<^verbatim>\<open>url\<close> key, or with the empty string under it, is answered with status 400 and
  the error message; the world is unchanged and the run made no call at all, so the
  extraction tool was not invoked.
\<close>

theorem missing_url_is_400:
  assumes "map_of kvs ''url'' = None \<or> map_of kvs ''url'' = Some (JString [])"
  shows "video_to_drive s (JObject kvs) w =
           (Response 400 [(''error'', JString (cross_mark @ '' YouTube URL required''))], w, [])"
  using assms by (auto simp: video_to_drive_def dict_get_def)

text \<open>C1, at sample inputs.\<close>

theorem missing_url_is_400_witness:
  "video_to_drive ok_script (JObject []) ok_world =
     (Response 400 [(''error'', JString (cross_mark @ '' YouTube URL required''))], ok_world, [])
   \<and> video_to_drive ok_script (JObject [(''url'', JString [])]) ok_world =
     (Response 400 [(''error'', JString (cross_mark @ '' YouTube URL required''))], ok_world, [])"
  using missing_url_is_400[of "[]" ok_script ok_world]
        missing_url_is_400[of "[(''url'', JString [])]" ok_script ok_world]
  by simp

text \<open>
  The claim C1 as stated fails: the body \<^verbatim>\<open>[]\<close> has no \<^verbatim>\<open>url\<close>, and the request is not
  answered with status 400: line 72 raises before the check of line 75, and the
  exception leaves the handler.
\<close>

theorem missing_url_without_400:
  "video_to_drive ok_script (JList []) ok_world =
     (Unhandled (Exn AttributeError
        ([CHR 0x27] @ ''list'' @ [CHR 0x27] @ '' object has no attribute ''
           @ [CHR 0x27] @ ''get'' @ [CHR 0x27])), ok_world, [])
   \<and> status_of (fst (video_to_drive ok_script (JList []) ok_world)) \<noteq> Some 400"
  by (simp add: video_to_drive_def)

text \<open>
  C2. When the download returns and no file exists at the normalized path, the
  request is answered with status 500 and the message of the download stage; the run
  consists of the two calls to the tool and the existence check, with no call for
  authentication, folder resolution or upload.
\<close>

theorem missing_file_is_500:
  assumes "truthy (dict_get kvs ''url'')"
      and "extract_info_r s = Inr info"
      and "prepare_filename_r s = Inr fn"
      and "normalize_ext fn \<notin> disk w \<union> ydl_writes s"
  shows "video_to_drive s (JObject kvs) w =
           (Response 500 [(''error'', JString ''File not found after download'')],
            w\<lparr>disk := disk w \<union> ydl_writes s\<rparr>,
            [ExtractInfo (dict_get kvs ''url''), PrepareFilename info,
             PathExists (normalize_ext fn)])
         \<and> \<not> list_ex is_auth_call (snd (snd (video_to_drive s (JObject kvs) w)))
         \<and> \<not> list_ex is_folder_call (snd (snd (video_to_drive s (JObject kvs) w)))
         \<and> \<not> list_ex is_upload_call (snd (snd (video_to_drive s (JObject kvs) w)))"
proof -
  let ?f = "normalize_ext fn"
  have nt: "?f \<noteq> ''token.pickle''"
    using normalize_ext_ends by (rule mp4_not_token)
  have run: "video_to_drive s (JObject kvs) w =
           (Response 500 [(''error'', JString ''File not found after download'')],
            w\<lparr>disk := disk w \<union> ydl_writes s\<rparr>,
            [ExtractInfo (dict_get kvs ''url''), PrepareFilename info, PathExists ?f])"
    using assms
    by (simp add: video_to_drive_def try_body_unfold download_video_run path_exists_run
          bnd_def except_500_def ret_def)
  show ?thesis using nt by (simp add: run)
qed

text \<open>C2, at sample inputs.\<close>

theorem missing_file_is_500_witness:
  "truthy (dict_get [(''url'', JString ''https://example.com/watch?v=abc'')] ''url'')
   \<and> normalize_ext ''downloads/abc.webm'' \<notin> disk ok_world \<union> ydl_writes no_output_script
   \<and> video_to_drive no_output_script request ok_world =
       (Response 500 [(''error'', JString ''File not found after download'')],
        ok_world,
        [ExtractInfo (JString ''https://example.com/watch?v=abc''),
         PrepareFilename (JObject [(''title'', JString ''abc''), (''ext'', JString ''webm'')]),
         PathExists ''downloads/abc.mp4''])"
  using missing_file_is_500[of "[(''url'', JString ''https://example.com/watch?v=abc'')]"
          no_output_script "JObject [(''title'', JString ''abc''), (''ext'', JString ''webm'')]"
          "''downloads/abc.webm''" ok_world]
  by (simp add: sample_defs dict_get_def normalize_ext_def endswith_def rsplit_dot_head_def)

text \<open>
  C3, as the code has it. The cleanup stands at the end of the \<^verbatim>\<open>try\<close> body, after
  the permission grant, and no error path deletes anything; what it deletes is the
  computed path, the tool's filename with its extension rewritten (lines 90 and 91),
  which is the path the handler checked and uploaded. So: after every request
  answered with status 200 no file exists at the computed path, and the disk is what
  it was before the request together with what the tool wrote, less that one path;
  and when the upload was attempted and failed (the media file could not be opened,
  or a chunk raised), the request is answered with the error response, no deletion
  was attempted, and the file at the computed path is still on disk.
\<close>

theorem local_file_after_request:
  assumes run: "video_to_drive s data w = (r, w', t)"
  shows "(status_of r = Some 200 \<longrightarrow>
            (\<exists>fn. prepare_filename_r s = Inr fn \<and> normalize_ext fn \<notin> disk w'
                  \<and> disk w' = (disk w \<union> ydl_writes s) - {normalize_ext fn}))
         \<and> (\<forall>f. MediaFileUpload f \<in> set t
                  \<and> (media_r s \<noteq> None \<or> (\<exists>e. transfer_end (chunks s) = Some (ChunkRaises e)))
               \<longrightarrow> (\<exists>e. r = error_response e) \<and> f \<in> disk w' \<and> \<not> list_ex is_remove_call t)"
proof -
  have part1: "\<exists>fn. prepare_filename_r s = Inr fn \<and> normalize_ext fn \<notin> disk w'
                  \<and> disk w' = (disk w \<union> ydl_writes s) - {normalize_ext fn}"
    if ok: "status_of r = Some 200"
  proof -
  from ok have "list_ex is_late_call t \<or> status_of r = Some 200" by simp
  with run obtain fn svc fid w3 t3 t4 r0 where
    fn: "prepare_filename_r s = Inr fn" and
    there: "normalize_ext fn \<in> disk w3" and
    disk3: "disk w3 = disk w \<union> ydl_writes s" and
    tail: "upload_and_after s svc (normalize_ext fn) fid w3 = (r0, w', t4)" and
    t: "t = t3 @ t4" and
    r: "r = (case r0 of Ok h \<Rightarrow> h | Raised e \<Rightarrow> error_response e | Diverged \<Rightarrow> NoResponse)"
    by (rule video_to_drive_tail)
  from r ok obtain h where r0: "r0 = Ok h"
    by (cases r0) (simp_all add: error_response_def)
  from tail r0 there
  have "normalize_ext fn \<notin> disk w' \<and> disk w' = disk w3 - {normalize_ext fn}"
    by (auto simp: upload_and_after_run bnd_def cleanup_local_file_run ret_def disk_granted after_eq
          split: option.splits chunk.splits if_splits)
  with fn disk3 show ?thesis by simp
  qed
  have part2: "(\<exists>e. r = error_response e) \<and> f \<in> disk w' \<and> \<not> list_ex is_remove_call t"
    if a: "MediaFileUpload f \<in> set t
      \<and> (media_r s \<noteq> None \<or> (\<exists>e. transfer_end (chunks s) = Some (ChunkRaises e)))" for f
  proof -
  from a have late: "list_ex is_late_call t"
    by (auto simp: list_ex_iff is_late_call_def intro!: bexI[of _ "MediaFileUpload f"])
  then have "list_ex is_late_call t \<or> status_of r = Some 200" by simp
  with run obtain fn svc fid w3 t3 t4 r0 where
    there: "normalize_ext fn \<in> disk w3" and
    tail: "upload_and_after s svc (normalize_ext fn) fid w3 = (r0, w', t4)" and
    t: "t = t3 @ t4" and early: "list_all (\<lambda>c. \<not> is_late_call c) t3" and
    r: "r = (case r0 of Ok h \<Rightarrow> h | Raised e \<Rightarrow> error_response e | Diverged \<Rightarrow> NoResponse)"
    by (rule video_to_drive_tail)
  have "MediaFileUpload f \<notin> set t3"
    using early by (rule early_not_member) (simp add: is_late_call_def)
  with a t have m4: "MediaFileUpload f \<in> set t4" by simp
  have nr3: "\<not> list_ex is_remove_call t3"
    using early by (auto simp: list_all_iff list_ex_iff is_late_call_def)
  from tail m4 a there
  have res: "(\<exists>e. r0 = Raised e) \<and> f \<in> disk w' \<and> \<not> list_ex is_remove_call t4"
    by (auto simp: upload_and_after_run no_remove_chunks split: option.splits chunk.splits)
  show ?thesis
    using res r t nr3 by auto
  qed
  from part1 part2 show ?thesis by blast
qed

text \<open>C3, at sample inputs.\<close>

theorem local_file_after_request_witness:
  "status_of (fst (video_to_drive ok_script request ok_world)) = Some 200
   \<and> normalize_ext ''downloads/abc.webm''
        \<notin> disk (fst (snd (video_to_drive ok_script request ok_world)))
   \<and> disk (fst (snd (video_to_drive ok_script request ok_world))) = {}
   \<and> status_of (fst (video_to_drive webm_script request leftover_world)) = Some 200
   \<and> disk (fst (snd (video_to_drive webm_script request leftover_world)))
        = {''downloads/abc.webm''}
   \<and> MediaFileUpload ''downloads/abc.mp4''
        \<in> set (snd (snd (video_to_drive broken_upload_script request ok_world)))
   \<and> transfer_end (chunks broken_upload_script) = Some (ChunkRaises http_error)
   \<and> (\<exists>e. fst (video_to_drive broken_upload_script request ok_world) = error_response e)
   \<and> ''downloads/abc.mp4'' \<in> disk (fst (snd (video_to_drive broken_upload_script request ok_world)))
   \<and> \<not> list_ex is_remove_call (snd (snd (video_to_drive broken_upload_script request ok_world)))"
proof -
  have st: "status_of (fst (video_to_drive ok_script request ok_world)) = Some 200"
    by (simp add: ok_run success_response_def)
  have st2: "status_of (fst (video_to_drive webm_script request leftover_world)) = Some 200"
    by (simp add: leftover_run success_response_def)
  have fn: "prepare_filename_r ok_script = Inr ''downloads/abc.webm''"
    by (simp add: ok_script_def)
  have fn2: "prepare_filename_r webm_script = Inr ''downloads/abc.webm''"
    by (simp add: webm_script_def ok_script_def)
  have n: "normalize_ext ''downloads/abc.webm'' = ''downloads/abc.mp4''"
    by (simp add: normalize_ext_def endswith_def rsplit_dot_head_def)
  have d1: "(disk ok_world \<union> ydl_writes ok_script) - {''downloads/abc.mp4''} = {}"
    by (simp add: ok_world_def ok_script_def)
  have d2: "(disk leftover_world \<union> ydl_writes webm_script) - {''downloads/abc.mp4''}
        = {''downloads/abc.webm''}"
    by (auto simp: leftover_world_def ok_world_def webm_script_def ok_script_def)
  have m: "MediaFileUpload ''downloads/abc.mp4''
        \<in> set (snd (snd (video_to_drive broken_upload_script request ok_world)))"
    by (simp add: broken_upload_run)
  have te: "transfer_end (chunks broken_upload_script) = Some (ChunkRaises http_error)"
    by (simp add: broken_upload_script_def)
  from local_file_after_request[OF run_triple, of ok_script request ok_world] st fn n d1
  have a: "normalize_ext ''downloads/abc.webm''
        \<notin> disk (fst (snd (video_to_drive ok_script request ok_world)))
     \<and> disk (fst (snd (video_to_drive ok_script request ok_world))) = {}"
    by auto
  from local_file_after_request[OF run_triple, of webm_script request leftover_world] st2 fn2 n d2
  have a2: "disk (fst (snd (video_to_drive webm_script request leftover_world)))
        = {''downloads/abc.webm''}"
    by auto
  from local_file_after_request[OF run_triple, of broken_upload_script request ok_world] m te
  have b: "(\<exists>e. fst (video_to_drive broken_upload_script request ok_world) = error_response e)
     \<and> ''downloads/abc.mp4'' \<in> disk (fst (snd (video_to_drive broken_upload_script request ok_world)))
     \<and> \<not> list_ex is_remove_call (snd (snd (video_to_drive broken_upload_script request ok_world)))"
    by blast
  from st st2 a a2 m te b show ?thesis by blast
qed

text \<open>
  The claim C3 as stated fails: in this run the upload is attempted, a chunk raises,
  the response is the error response, and the downloaded file is still on disk, no
  \<^verbatim>\<open>os.remove\<close> having been called.
\<close>

theorem upload_failure_leaves_file:
  "NextChunk \<in> set (snd (snd (video_to_drive broken_upload_script request ok_world)))
   \<and> fst (video_to_drive broken_upload_script request ok_world) = error_response http_error
   \<and> ''downloads/abc.mp4'' \<in> disk (fst (snd (video_to_drive broken_upload_script request ok_world)))
   \<and> \<not> list_ex is_remove_call (snd (snd (video_to_drive broken_upload_script request ok_world)))"
  by (simp add: broken_upload_run)

text \<open>
  C4, as the code has it. With a cached credential that loads, is expired and carries
  a refresh token, \<^verbatim>\<open>get_gdrive_service\<close> attempts a refresh. If the refresh raises,
  the exception leaves the function at once: nothing is read from the environment, no
  interactive flow runs, the cache is not written. If the refresh succeeds (and the
  cache write and the client build do), the refreshed credential is written to the
  cache and the service built with it is returned.
\<close>

theorem refresh_outcomes:
  assumes cached: "token_pickle w = Some (Holds c)"
      and loads: "pickle_load_r s = None"
      and stale: "expired c"
      and token: "truthy_str (refresh_token c)"
  shows "(\<forall>e. refresh_r s = Inl e \<longrightarrow>
            get_gdrive_service s w =
              (Raised e, w, [PathExists ''token.pickle'', PickleLoad, Refresh]))
         \<and> (\<forall>c'. refresh_r s = Inr c' \<and> pickle_dump_r s = None \<and> build_r s = None \<longrightarrow>
            get_gdrive_service s w =
              (Ok (Service c'), w\<lparr>token_pickle := Some (Holds c')\<rparr>,
               [PathExists ''token.pickle'', PickleLoad, Refresh, PickleDump, Build]))"
  using assms by (simp add: auth_defs cred_valid_def)

text \<open>C4, at sample inputs.\<close>

theorem refresh_outcomes_witness:
  "token_pickle stale_world = Some (Holds stale_cred)
   \<and> expired stale_cred \<and> truthy_str (refresh_token stale_cred)
   \<and> get_gdrive_service refresh_fails_script stale_world =
       (Raised refresh_error, stale_world, [PathExists ''token.pickle'', PickleLoad, Refresh])
   \<and> get_gdrive_service ok_script stale_world =
       (Ok (Service good_cred), stale_world\<lparr>token_pickle := Some (Holds good_cred)\<rparr>,
        [PathExists ''token.pickle'', PickleLoad, Refresh, PickleDump, Build])"
proof -
  have c: "token_pickle stale_world = Some (Holds stale_cred)"
    by (simp add: stale_world_def)
  have l1: "pickle_load_r refresh_fails_script = None" and l2: "pickle_load_r ok_script = None"
    by (simp_all add: refresh_fails_script_def ok_script_def)
  have e: "expired stale_cred" and t: "truthy_str (refresh_token stale_cred)"
    by (simp_all add: stale_cred_def)
  have r1: "refresh_r refresh_fails_script = Inl refresh_error"
    by (simp add: refresh_fails_script_def)
  have r2: "refresh_r ok_script = Inr good_cred \<and> pickle_dump_r ok_script = None
      \<and> build_r ok_script = None"
    by (simp add: ok_script_def)
  from refresh_outcomes[OF c l1 e t] refresh_outcomes[OF c l2 e t] r1 r2 c e t
  show ?thesis by blast
qed

text \<open>
  The claim C4 as stated fails: here the cached credential is expired with a refresh
  token, the refresh raises, the bootstrap secret is present and the interactive flow
  would succeed; yet the function raises the refresh error and makes none of the calls
  of the acquisition.
\<close>

theorem refresh_failure_propagates:
  "token_pickle stale_world = Some (Holds stale_cred)
   \<and> expired stale_cred \<and> truthy_str (refresh_token stale_cred)
   \<and> refresh_r refresh_fails_script = Inl refresh_error
   \<and> truthy_str (environ stale_world)
   \<and> run_local_server_r refresh_fails_script = Inr good_cred
   \<and> fst (get_gdrive_service refresh_fails_script stale_world) = Raised refresh_error
   \<and> \<not> list_ex is_acquire_call (snd (snd (get_gdrive_service refresh_fails_script stale_world)))"
  by (simp add: auth_defs cred_valid_def sample_defs)





text \<open>
  C7, as the code has it. Line 57 puts the folder name between quotes as it stands,
  so the statement is for names with no single quote and no backslash in them; the
  provider then reads the query as asking for the folders of exactly that name that
  are not trashed. With a provider that answers the listing: if the provider holds
  folders of the given name that are not trashed, \<^verbatim>\<open>get_or_create_folder\<close> returns the identifier
  of the first of them, makes the one listing call and leaves the provider unchanged,
  so two calls in a row return the same identifier twice and create nothing. If it
  holds none (and the creation succeeds), the function creates one folder of that
  name under an identifier not in use and returns it; a further call then returns
  that same identifier without creating anything.
\<close>

theorem folder_resolution:
  assumes lists: "files_list_r s = None"
      and no_quote: "CHR 0x27 \<notin> set n"
      and no_backslash: "CHR 0x5C \<notin> set n"
  shows "(\<forall>obj rest. filter (is_live_folder n) (drive w) = obj # rest \<longrightarrow>
            get_or_create_folder s svc n w = (Ok (obj_id obj), w, [FilesList (folder_query n)])
            \<and> bnd (get_or_create_folder s svc n) (\<lambda>i.
               bnd (get_or_create_folder s svc n) (\<lambda>j. ret (i, j))) w
                = (Ok (obj_id obj, obj_id obj), w,
                   [FilesList (folder_query n), FilesList (folder_query n)]))
         \<and> (filter (is_live_folder n) (drive w) = [] \<and> folder_create_r s = None \<longrightarrow>
            get_or_create_folder s svc n w =
              (Ok (fresh_id (drive w)),
               w\<lparr>drive := drive w @ [new_folder (fresh_id (drive w)) n]\<rparr>,
               [FilesList (folder_query n), FolderCreate n])
            \<and> fresh_id (drive w) \<notin> obj_id ` set (drive w)
            \<and> is_live_folder n (new_folder (fresh_id (drive w)) n)
            \<and> get_or_create_folder s svc n
                 (w\<lparr>drive := drive w @ [new_folder (fresh_id (drive w)) n]\<rparr>) =
              (Ok (fresh_id (drive w)),
               w\<lparr>drive := drive w @ [new_folder (fresh_id (drive w)) n]\<rparr>,
               [FilesList (folder_query n)]))"
proof -
  have found: "get_or_create_folder s svc n v = (Ok (obj_id obj), v, [FilesList (folder_query n)])"
    if "filter (is_live_folder n) (drive v) = obj # rest" for v obj rest
    using that lists by (simp add: get_or_create_folder_run drive_files_list_folder[OF no_quote no_backslash])
  have twice: "bnd (get_or_create_folder s svc n) (\<lambda>i.
               bnd (get_or_create_folder s svc n) (\<lambda>j. ret (i, j))) w
                = (Ok (obj_id obj, obj_id obj), w,
                   [FilesList (folder_query n), FilesList (folder_query n)])"
    if "filter (is_live_folder n) (drive w) = obj # rest" for obj rest
    using found[OF that] by (simp add: bnd_def ret_def)
  have created: "get_or_create_folder s svc n w =
              (Ok (fresh_id (drive w)),
               w\<lparr>drive := drive w @ [new_folder (fresh_id (drive w)) n]\<rparr>,
               [FilesList (folder_query n), FolderCreate n])"
    if "filter (is_live_folder n) (drive w) = []" and "folder_create_r s = None"
    using that lists by (simp add: get_or_create_folder_run drive_files_list_folder[OF no_quote no_backslash])
  have again: "get_or_create_folder s svc n
                 (w\<lparr>drive := drive w @ [new_folder (fresh_id (drive w)) n]\<rparr>) =
              (Ok (fresh_id (drive w)),
               w\<lparr>drive := drive w @ [new_folder (fresh_id (drive w)) n]\<rparr>,
               [FilesList (folder_query n)])"
    if none: "filter (is_live_folder n) (drive w) = []"
  proof -
    have "filter (is_live_folder n)
            (drive (w\<lparr>drive := drive w @ [new_folder (fresh_id (drive w)) n]\<rparr>))
          = new_folder (fresh_id (drive w)) n # []"
      using none by (simp add: live_new_folder)
    from found[OF this] show ?thesis by (simp add: new_folder_def)
  qed
  from found twice created again fresh_id_fresh live_new_folder show ?thesis
    by blast
qed

text \<open>C7, at sample inputs.\<close>

theorem folder_resolution_witness:
  "files_list_r ok_script = None
   \<and> CHR 0x27 \<notin> set ''YouTubeSong'' \<and> CHR 0x5C \<notin> set ''YouTubeSong''
   \<and> filter (is_live_folder ''YouTubeSong'') (drive songs_world) = [songs_folder]
   \<and> get_or_create_folder ok_script (Service good_cred) ''YouTubeSong'' songs_world =
       (Ok ''1AbC'', songs_world, [FilesList (folder_query ''YouTubeSong'')])
   \<and> bnd (get_or_create_folder ok_script (Service good_cred) ''YouTubeSong'') (\<lambda>i.
      bnd (get_or_create_folder ok_script (Service good_cred) ''YouTubeSong'') (\<lambda>j. ret (i, j)))
        songs_world
       = (Ok (''1AbC'', ''1AbC''), songs_world,
          [FilesList (folder_query ''YouTubeSong''), FilesList (folder_query ''YouTubeSong'')])
   \<and> filter (is_live_folder ''YouTubeSong'') (drive ok_world) = []
   \<and> folder_create_r ok_script = None
   \<and> get_or_create_folder ok_script (Service good_cred) ''YouTubeSong'' ok_world =
       (Ok ''i'', ok_world\<lparr>drive := [new_folder ''i'' ''YouTubeSong'']\<rparr>,
        [FilesList (folder_query ''YouTubeSong''), FolderCreate ''YouTubeSong''])
   \<and> get_or_create_folder ok_script (Service good_cred) ''YouTubeSong''
         (ok_world\<lparr>drive := [new_folder ''i'' ''YouTubeSong'']\<rparr>) =
       (Ok ''i'', ok_world\<lparr>drive := [new_folder ''i'' ''YouTubeSong'']\<rparr>,
        [FilesList (folder_query ''YouTubeSong'')])"
proof -
  have l: "files_list_r ok_script = None" and c: "folder_create_r ok_script = None"
    by (simp_all add: ok_script_def)
  have f1: "filter (is_live_folder ''YouTubeSong'') (drive songs_world) = [songs_folder]"
    by (simp add: songs_world_def songs_folder_def is_live_folder_def)
  have f0: "filter (is_live_folder ''YouTubeSong'') (drive ok_world) = []"
    by (simp add: ok_world_def)
  have i: "obj_id songs_folder = ''1AbC''" by (simp add: songs_folder_def)
  have d: "drive ok_world = []" and fr: "fresh_id [] = ''i''"
    by (simp_all add: ok_world_def fresh_id_def)
  have q: "CHR 0x27 \<notin> set ''YouTubeSong''" and bs: "CHR 0x5C \<notin> set ''YouTubeSong''"
    by simp_all
  note a = folder_resolution[OF l q bs, where w = songs_world and svc = "Service good_cred"]
  note b = folder_resolution[OF l q bs, where w = ok_world and svc = "Service good_cred"]
  from a f1 i have a': 
    "get_or_create_folder ok_script (Service good_cred) ''YouTubeSong'' songs_world =
       (Ok ''1AbC'', songs_world, [FilesList (folder_query ''YouTubeSong'')])
     \<and> bnd (get_or_create_folder ok_script (Service good_cred) ''YouTubeSong'') (\<lambda>i.
        bnd (get_or_create_folder ok_script (Service good_cred) ''YouTubeSong'') (\<lambda>j. ret (i, j)))
        songs_world
       = (Ok (''1AbC'', ''1AbC''), songs_world,
          [FilesList (folder_query ''YouTubeSong''), FilesList (folder_query ''YouTubeSong'')])"
    by auto
  from b f0 c d fr have b':
    "get_or_create_folder ok_script (Service good_cred) ''YouTubeSong'' ok_world =
       (Ok ''i'', ok_world\<lparr>drive := [new_folder ''i'' ''YouTubeSong'']\<rparr>,
        [FilesList (folder_query ''YouTubeSong''), FolderCreate ''YouTubeSong''])
     \<and> get_or_create_folder ok_script (Service good_cred) ''YouTubeSong''
         (ok_world\<lparr>drive := [new_folder ''i'' ''YouTubeSong'']\<rparr>) =
       (Ok ''i'', ok_world\<lparr>drive := [new_folder ''i'' ''YouTubeSong'']\<rparr>,
        [FilesList (folder_query ''YouTubeSong'')])"
    by simp
  from l q bs c f1 f0 a' b' show ?thesis by blast
qed

text \<open>
  The claim C7 as stated fails for a name with quotes in it. The provider holds a
  folder of exactly this name, not trashed; the query of line 57 for this name reads
  as asking for folders named \<^verbatim>\<open>a\<close>, of which there are none; so the function
  creates a second folder of the name instead of returning the first.
\<close>

theorem quoted_name_creates_duplicate:
  "filter (is_live_folder quoted_name) (drive quoted_world) = [quoted_folder]
   \<and> files_list_r ok_script = None \<and> folder_create_r ok_script = None
   \<and> parse_query (folder_query quoted_name) =
        Some [NameIs ''a'', NameIs ''a'', MimeTypeIs folder_mime, TrashedIs False]
   \<and> get_or_create_folder ok_script (Service good_cred) quoted_name quoted_world =
       (Ok ''iiiii'',
        quoted_world\<lparr>drive := [quoted_folder, new_folder ''iiiii'' quoted_name]\<rparr>,
        [FilesList (folder_query quoted_name), FolderCreate quoted_name])"
proof -
  have p: "parse_query (folder_query quoted_name) =
        Some [NameIs ''a'', NameIs ''a'', MimeTypeIs folder_mime, TrashedIs False]"
    by (simp add: parse_query_def folder_query_def quoted_name_def folder_mime_def parse_term_def)
  have f: "filter (is_live_folder quoted_name) (drive quoted_world) = [quoted_folder]"
    by (simp add: quoted_world_def quoted_folder_def is_live_folder_def)
  have l: "drive_files_list (folder_query quoted_name) (drive quoted_world) = Inr []"
    unfolding drive_files_list_def p
    by (simp add: quoted_world_def quoted_folder_def quoted_name_def)
  have i: "fresh_id (drive quoted_world) = ''iiiii''"
    by (simp add: fresh_id_def quoted_world_def quoted_folder_def)
  have g: "get_or_create_folder ok_script (Service good_cred) quoted_name quoted_world =
       (Ok ''iiiii'',
        quoted_world\<lparr>drive := [quoted_folder, new_folder ''iiiii'' quoted_name]\<rparr>,
        [FilesList (folder_query quoted_name), FolderCreate quoted_name])"
    by (simp add: get_or_create_folder_run l i ok_script_def) (simp add: quoted_world_def)
  from p f g show ?thesis by (simp add: ok_script_def)
qed

text \<open>
  C8. The normalized filename always ends in \<^verbatim>\<open>.mp4\<close>; a filename that already
  ends in \<^verbatim>\<open>.mp4\<close> is unchanged; any other is cut at its last dot and given
  \<^verbatim>\<open>.mp4\<close>, which for a name \<open>stem.ext\<close> is \<open>stem.mp4\<close>. In every run of the
  handler, a path handed to \<^verbatim>\<open>MediaFileUpload\<close> is the normalized name of the file
  the tool prepared and ends in \<^verbatim>\<open>.mp4\<close>, and the \<^verbatim>\<open>file_name\<close> of a 200
  response ends in \<^verbatim>\<open>.mp4\<close>.
\<close>

theorem extension_normalized:
  assumes run: "video_to_drive s data w = (r, w', t)"
  shows "endswith (normalize_ext fn) ''.mp4''
   \<and> (endswith fn ''.mp4'' \<longrightarrow> normalize_ext fn = fn)
   \<and> (\<not> endswith fn ''.mp4'' \<longrightarrow> normalize_ext fn = rsplit_dot_head fn @ ''.mp4'')
   \<and> (\<forall>stem ext. fn = stem @ ''.'' @ ext \<and> CHR ''.'' \<notin> set ext \<and> ext \<noteq> ''mp4''
          \<longrightarrow> normalize_ext fn = stem @ ''.mp4'')
   \<and> (\<forall>p. MediaFileUpload p \<in> set t \<longrightarrow>
          (\<exists>fn'. prepare_filename_r s = Inr fn' \<and> p = normalize_ext fn') \<and> endswith p ''.mp4'')
   \<and> (\<forall>body. r = Response 200 body \<longrightarrow>
          (\<exists>n. map_of body ''file_name'' = Some (JString n) \<and> endswith n ''.mp4''))"
proof -
  have part1: "(\<exists>fn'. prepare_filename_r s = Inr fn' \<and> p = normalize_ext fn') \<and> endswith p ''.mp4''"
    if m: "MediaFileUpload p \<in> set t" for p
  proof -
    from m have "list_ex is_late_call t"
      by (auto simp: list_ex_iff is_late_call_def intro!: bexI[of _ "MediaFileUpload p"])
    then have "list_ex is_late_call t \<or> status_of r = Some 200" by simp
    with run obtain fn' svc fid w3 t3 t4 r0 where
      fn': "prepare_filename_r s = Inr fn'" and
      tail: "upload_and_after s svc (normalize_ext fn') fid w3 = (r0, w', t4)" and
      t: "t = t3 @ t4" and early: "list_all (\<lambda>c. \<not> is_late_call c) t3"
      by (rule video_to_drive_tail)
    have "MediaFileUpload p \<notin> set t3"
      using early by (rule early_not_member) (simp add: is_late_call_def)
    with m t have m4: "MediaFileUpload p \<in> set t4" by simp
    from tail m4 have "p = normalize_ext fn'"
      by (auto simp: upload_and_after_run bnd_def cleanup_local_file_run ret_def
            split: option.splits chunk.splits if_splits)
    with fn' show ?thesis using normalize_ext_ends by blast
  qed
  have part2: "\<exists>n. map_of body ''file_name'' = Some (JString n) \<and> endswith n ''.mp4''"
    if ok: "r = Response 200 body" for body
  proof -
    from ok have "list_ex is_late_call t \<or> status_of r = Some 200" by simp
    with run obtain fn' svc fid w3 t3 t4 r0 where
      tail: "upload_and_after s svc (normalize_ext fn') fid w3 = (r0, w', t4)" and
      t: "t = t3 @ t4" and
      r: "r = (case r0 of Ok h \<Rightarrow> h | Raised e \<Rightarrow> error_response e | Diverged \<Rightarrow> NoResponse)"
      by (rule video_to_drive_tail)
    from r ok have r0: "r0 = Ok (Response 200 body)"
      by (cases r0) (simp_all add: error_response_def)
    from tail r0 have "Response 200 body = success_response (upload_response w3) (normalize_ext fn')"
      by (auto simp: upload_and_after_run bnd_def cleanup_local_file_run ret_def after_eq
            split: option.splits chunk.splits if_splits)
    then have "map_of body ''file_name'' = Some (JString (basename (normalize_ext fn')))"
      by (simp add: success_response_def)
    moreover have "endswith (basename (normalize_ext fn')) ''.mp4''"
      using normalize_ext_ends by (rule basename_ends)
    ultimately show ?thesis by blast
  qed
  have part0: "endswith (normalize_ext fn) ''.mp4''
     \<and> (endswith fn ''.mp4'' \<longrightarrow> normalize_ext fn = fn)
     \<and> (\<not> endswith fn ''.mp4'' \<longrightarrow> normalize_ext fn = rsplit_dot_head fn @ ''.mp4'')"
    using normalize_ext_ends[of fn] by (simp add: normalize_ext_def)
  have part3: "normalize_ext fn = stem @ ''.mp4''"
    if "fn = stem @ ''.'' @ ext \<and> CHR ''.'' \<notin> set ext \<and> ext \<noteq> ''mp4''" for stem ext
    using that normalize_ext_replaces[of ext stem] by simp
  from part0 part1 part2 part3 show ?thesis by blast
qed

text \<open>C8, at sample inputs.\<close>

theorem extension_normalized_witness:
  "normalize_ext ''downloads/abc.webm'' = ''downloads/abc.mp4''
   \<and> normalize_ext ''downloads/abc.mp4'' = ''downloads/abc.mp4''
   \<and> normalize_ext ''downloads/a.b.mkv'' = ''downloads/a.b.mp4''
   \<and> endswith ''downloads/abc.mp4'' ''.mp4''
   \<and> \<not> endswith ''downloads/abc.webm'' ''.mp4''
   \<and> MediaFileUpload ''downloads/abc.mp4'' \<in> set (snd (snd (video_to_drive ok_script request ok_world)))
   \<and> (\<exists>n. map_of [(''message'', JString (check_mark @ '' Video downloaded & uploaded to Google Drive'')),
                    (''file_id'', JString ''ii''),
                    (''file_name'', JString ''abc.mp4''),
                    (''public_link'', JString ''https://drive.google.com/file/d/ii/view'')]
              ''file_name'' = Some (JString n) \<and> endswith n ''.mp4'')"
proof -
  have e1: "\<not> endswith ''downloads/abc.webm'' ''.mp4''" by (simp add: endswith_def)
  have e2: "endswith ''downloads/abc.mp4'' ''.mp4''" by (simp add: endswith_def)
  have e3: "\<not> endswith ''downloads/a.b.mkv'' ''.mp4''" by (simp add: endswith_def)
  have h1: "rsplit_dot_head ''downloads/abc.webm'' = ''downloads/abc''"
    by (simp add: rsplit_dot_head_def)
  have h3: "rsplit_dot_head ''downloads/a.b.mkv'' = ''downloads/a.b''"
    by (simp add: rsplit_dot_head_def)
  have m: "MediaFileUpload ''downloads/abc.mp4''
      \<in> set (snd (snd (video_to_drive ok_script request ok_world)))"
    by (simp add: ok_run)
  have r: "fst (video_to_drive ok_script request ok_world) =
      Response 200 [(''message'', JString (check_mark @ '' Video downloaded & uploaded to Google Drive'')),
                    (''file_id'', JString ''ii''),
                    (''file_name'', JString ''abc.mp4''),
                    (''public_link'', JString ''https://drive.google.com/file/d/ii/view'')]"
    by (simp add: ok_run success_response_def dict_get_def basename_def)
  note a = extension_normalized[OF run_triple, where s = ok_script and data = request
      and w = ok_world and fn = "''downloads/abc.webm''"]
  note b = extension_normalized[OF run_triple, where s = ok_script and data = request
      and w = ok_world and fn = "''downloads/abc.mp4''"]
  note c = extension_normalized[OF run_triple, where s = ok_script and data = request
      and w = ok_world and fn = "''downloads/a.b.mkv''"]
  have n1: "normalize_ext ''downloads/abc.webm'' = ''downloads/abc.mp4''"
    using a e1 h1 by simp
  have n2: "normalize_ext ''downloads/abc.mp4'' = ''downloads/abc.mp4''"
    using b e2 by simp
  have n3: "normalize_ext ''downloads/a.b.mkv'' = ''downloads/a.b.mp4''"
    using c e3 h3 by simp
  have n4: "\<exists>n. map_of [(''message'', JString (check_mark @ '' Video downloaded & uploaded to Google Drive'')),
                    (''file_id'', JString ''ii''),
                    (''file_name'', JString ''abc.mp4''),
                    (''public_link'', JString ''https://drive.google.com/file/d/ii/view'')]
              ''file_name'' = Some (JString n) \<and> endswith n ''.mp4''"
    using a r by blast
  from n1 n2 n3 e1 e2 m n4 show ?thesis by blast
qed



text \<open>
  C10. When the parsed body has no \<^verbatim>\<open>get\<close> method (anything but a dict: \<^verbatim>\<open>null\<close>, a
  list, a string, a number, a boolean), \<^verbatim>\<open>data.get("url")\<close> raises
  \<^verbatim>\<open>AttributeError\<close> before the \<^verbatim>\<open>try\<close> and before the check of the url: the
  exception leaves the handler uncaught, and the 400 response is not produced.
\<close>

theorem non_dict_body_unhandled:
  assumes "\<not> has_get data"
  shows "video_to_drive s data w =
           (Unhandled (Exn AttributeError
              ([CHR 0x27] @ type_name data @ [CHR 0x27] @ '' object has no attribute ''
                 @ [CHR 0x27] @ ''get'' @ [CHR 0x27])), w, [])
         \<and> status_of (fst (video_to_drive s data w)) \<noteq> Some 400"
  using assms by (cases data) (simp_all add: video_to_drive_def)

text \<open>C10, at sample inputs.\<close>

theorem non_dict_body_unhandled_witness:
  "\<not> has_get JNull
   \<and> video_to_drive ok_script JNull ok_world =
       (Unhandled (Exn AttributeError
          ([CHR 0x27] @ ''NoneType'' @ [CHR 0x27] @ '' object has no attribute ''
             @ [CHR 0x27] @ ''get'' @ [CHR 0x27])), ok_world, [])
   \<and> status_of (fst (video_to_drive ok_script JNull ok_world)) \<noteq> Some 400"
  using non_dict_body_unhandled[of JNull ok_script ok_world] by simp

end
